theory Spec2Isabelle
  imports Complex_Main
begin

section \<open>The sidetone generator of ChannelMaster (sidetonegen.c)\<close>

text \<open>
  The generator keeps its state in file-scope variables: the transmit flag, the
  oscillator phase, the fade state with its counter, the scratch buffer and the three
  parameter callbacks. The model passes that state explicitly as a record.

  Conventions of the embedding:
  \<^item> a C \<open>int\<close> is an \<open>int\<close>: \<open>g_fade_counter++\<close> stops at \<open>FADE_SAMPLES\<close>, and
    \<open>nsamples * 2\<close>, \<open>2*i\<close> and \<open>2*i+1\<close> stay below \<open>2^31\<close> for every block of fewer
    than \<open>2^30\<close> frames;
  \<^item> a C \<open>double\<close> is a \<open>real\<close>. The first model computes exactly: the fade state
    machine, the guards and the layout of the buffer do not depend on rounding. The
    second model (\<open>SidetoneGen_Generate64\<close>) rounds every operation to binary64,
    as the program does: where the phase wraps depends on it. In both a division
    whose result is not a finite double (sample rate 0) is the fault \<open>NonFinite\<close>,
    not HOL's \<open>x / 0 = 0\<close>;
  \<^item> a pointer is an \<open>option\<close>, \<open>None\<close> for \<open>NULL\<close>; the output buffer is the list
    of its doubles, and a write behind its end is the fault \<open>OutOfBounds\<close>;
  \<^item> a callback without arguments is a function from \<open>unit\<close>.
\<close>

subsection \<open>Private state\<close>

record gen_state =
  g_tx_active :: int
  g_phase :: real
  g_fade_state :: int  \<comment> \<open>0=idle, 1=fade_in, 2=active, 3=fade_out\<close>
  g_fade_counter :: int
  g_buffer :: "real list option"
  g_blocksize :: int
  g_getEnabled :: "(unit \<Rightarrow> int) option"
  g_getFreq :: "(unit \<Rightarrow> int) option"
  g_getVolume :: "(unit \<Rightarrow> real) option"

definition FADE_SAMPLES :: int where
  "FADE_SAMPLES = 48"

text \<open>The values of the static initialisers.\<close>

definition static_state :: gen_state where
  "static_state =
     \<lparr>g_tx_active = 0, g_phase = 0, g_fade_state = 0, g_fade_counter = 0,
      g_buffer = None, g_blocksize = 0,
      g_getEnabled = None, g_getFreq = None, g_getVolume = None\<rparr>"

datatype fault = OutOfBounds | NonFinite

subsection \<open>Lifecycle\<close>

text \<open>
  \<open>malloc0\<close> returns zeroed memory or \<open>NULL\<close>; whether the allocation succeeds is
  the allocator's choice, a parameter here.
\<close>

definition malloc0 :: "bool \<Rightarrow> nat \<Rightarrow> real list option" where
  "malloc0 ok n = (if ok then Some (replicate n 0) else None)"

definition SidetoneGen_Initialize :: "bool \<Rightarrow> int \<Rightarrow> gen_state \<Rightarrow> gen_state" where
  "SidetoneGen_Initialize ok blocksize s =
     (let s1 = s\<lparr>g_blocksize := blocksize\<rparr>;
          s2 = s1\<lparr>g_buffer := malloc0 ok (nat (blocksize * 2))\<rparr>
      in if g_buffer s2 = None then s2
         else s2\<lparr>g_tx_active := 0, g_phase := 0, g_fade_state := 0, g_fade_counter := 0\<rparr>)"

definition SidetoneGen_Destroy :: "gen_state \<Rightarrow> gen_state" where
  "SidetoneGen_Destroy s =
     s\<lparr>g_buffer := None, g_blocksize := 0, g_tx_active := 0, g_phase := 0,
       g_fade_state := 0, g_fade_counter := 0,
       g_getEnabled := None, g_getFreq := None, g_getVolume := None\<rparr>"

definition SidetoneGen_SetCallbacks ::
  "(unit \<Rightarrow> int) option \<Rightarrow> (unit \<Rightarrow> int) option \<Rightarrow> (unit \<Rightarrow> real) option \<Rightarrow>
   gen_state \<Rightarrow> gen_state" where
  "SidetoneGen_SetCallbacks getEnabled getFreq getVolume s =
     s\<lparr>g_getEnabled := getEnabled, g_getFreq := getFreq, g_getVolume := getVolume\<rparr>"

subsection \<open>The transmit edge\<close>

definition SidetoneGen_SetTXActive :: "int \<Rightarrow> gen_state \<Rightarrow> gen_state" where
  "SidetoneGen_SetTXActive tx_active s =
     (if g_tx_active s = tx_active then s
      else
        let s1 = s\<lparr>g_tx_active := tx_active\<rparr>
        in if tx_active = 1
           then s1\<lparr>g_phase := 0, g_fade_state := 1, g_fade_counter := 0\<rparr>
           else s1\<lparr>g_fade_state := 3, g_fade_counter := 0\<rparr>)"

subsection \<open>One frame of the generation loop\<close>

text \<open>
  The fade envelope of one frame (the \<open>if\<close> chain on \<open>g_fade_state\<close> in the loop
  body): the envelope applied to the frame, and the state with the counter and the
  fade state advanced.
\<close>

definition fade_envelope :: "gen_state \<Rightarrow> real \<times> gen_state" where
  "fade_envelope s =
     (if g_fade_state s = 1 then
        let envelope = real_of_int (g_fade_counter s) / real_of_int FADE_SAMPLES;
            s1 = s\<lparr>g_fade_counter := g_fade_counter s + 1\<rparr>
        in if g_fade_counter s1 \<ge> FADE_SAMPLES
           then (envelope, s1\<lparr>g_fade_state := 2\<rparr>)
           else (envelope, s1)
      else if g_fade_state s = 3 then
        let envelope = 1 - real_of_int (g_fade_counter s) / real_of_int FADE_SAMPLES;
            s1 = s\<lparr>g_fade_counter := g_fade_counter s + 1\<rparr>
        in if g_fade_counter s1 \<ge> FADE_SAMPLES
           then (0, s1\<lparr>g_fade_state := 0\<rparr>)
           else (envelope, s1)
      else if g_fade_state s = 0 then (0, s)
      else (1, s))"

text \<open>The phase update with wrapping that ends the loop body.\<close>

definition update_phase :: "real \<Rightarrow> gen_state \<Rightarrow> gen_state" where
  "update_phase delta_phase s =
     (let s1 = s\<lparr>g_phase := g_phase s + delta_phase\<rparr>
      in if g_phase s1 \<ge> 2 * pi then s1\<lparr>g_phase := g_phase s1 - 2 * pi\<rparr> else s1)"

text \<open>The sample of one frame: the sine wave, scaled by the volume, then by the envelope.\<close>

definition frame_sample :: "real \<Rightarrow> gen_state \<Rightarrow> real" where
  "frame_sample volume s =
     (let sample = sin (g_phase s) * volume;
          envelope = fst (fade_envelope s)
      in sample * envelope)"

text \<open>The state after one frame.\<close>

definition frame_state :: "real \<Rightarrow> gen_state \<Rightarrow> gen_state" where
  "frame_state delta_phase s = update_phase delta_phase (snd (fade_envelope s))"

text \<open>
  The loop body at index \<open>i\<close>: the sample goes to \<open>buffer[2*i]\<close> and
  \<open>buffer[2*i+1]\<close>. The caller owns the buffer; a buffer shorter than that is
  written behind its end.
\<close>

definition gen_frame ::
  "real \<Rightarrow> real \<Rightarrow> nat \<Rightarrow> real list \<Rightarrow> gen_state \<Rightarrow> fault + (real list \<times> gen_state)" where
  "gen_frame volume delta_phase i buffer s =
     (let sample = frame_sample volume s
      in if 2 * i + 1 < length buffer
         then Inr (buffer[2 * i := sample, 2 * i + 1 := sample], frame_state delta_phase s)
         else Inl OutOfBounds)"

subsection \<open>The generation entry point\<close>

text \<open>\<open>for (int i = 0; i < nsamples; i++)\<close>, from index \<open>i\<close> on.\<close>

function gen_loop ::
  "real \<Rightarrow> real \<Rightarrow> int \<Rightarrow> nat \<Rightarrow> real list \<Rightarrow> gen_state \<Rightarrow> fault + (real list \<times> gen_state)" where
  "gen_loop volume delta_phase nsamples i buffer s =
     (if int i < nsamples then
        (case gen_frame volume delta_phase i buffer s of
           Inl e \<Rightarrow> Inl e
         | Inr (buffer', s') \<Rightarrow> gen_loop volume delta_phase nsamples (i + 1) buffer' s')
      else Inr (buffer, s))"
  by pat_completeness auto
termination
  by (relation "measure (\<lambda>(volume, delta_phase, nsamples, i, buffer, s). nat (nsamples - int i))")
     auto

text \<open>The loop's equation calls the loop again: it is unfolded by hand, one step at a time.\<close>

declare gen_loop.simps [simp del]

text \<open>
  \<open>memset(buffer, 0, nsamples * 2 * sizeof(double))\<close>: the first \<open>count\<close> doubles
  become 0.0. A negative count converts to a huge \<open>size_t\<close>.
\<close>

definition memset_zero :: "real list \<Rightarrow> int \<Rightarrow> fault + real list" where
  "memset_zero buffer count =
     (if count < 0 \<or> int (length buffer) < count then Inl OutOfBounds
      else Inr (replicate (nat count) 0 @ drop (nat count) buffer))"

definition SidetoneGen_Generate ::
  "real list option \<Rightarrow> int \<Rightarrow> int \<Rightarrow> gen_state \<Rightarrow> fault + (real list option \<times> gen_state)" where
  "SidetoneGen_Generate buffer nsamples samplerate s =
     (case (buffer, g_buffer s) of
        (Some out, Some _) \<Rightarrow>
          (case (g_getFreq s, g_getVolume s) of
             (Some getFreq, Some getVolume) \<Rightarrow>
               (let freq = real_of_int (getFreq ());
                    volume = getVolume ()
                in if samplerate = 0 then Inl NonFinite
                   else
                     let delta_phase = 2 * pi * freq / real_of_int samplerate
                     in (case gen_loop volume delta_phase nsamples 0 out s of
                           Inl e \<Rightarrow> Inl e
                         | Inr (out', s') \<Rightarrow> Inr (Some out', s')))
           | _ \<Rightarrow>
               (case memset_zero out (nsamples * 2) of
                  Inl e \<Rightarrow> Inl e
                | Inr out' \<Rightarrow> Inr (Some out', s)))
      | _ \<Rightarrow> Inr (buffer, s))"

subsection \<open>The activity query\<close>

definition SidetoneGen_IsActive :: "gen_state \<Rightarrow> int" where
  "SidetoneGen_IsActive s =
     (if g_tx_active s = 0 then 0
      else (case g_getEnabled s of Some getEnabled \<Rightarrow> getEnabled () | None \<Rightarrow> 0))"

subsection \<open>Frames in sequence\<close>

text \<open>
  The state before frame \<open>k\<close> (counted from the state \<open>s\<close>), and the envelope and
  the phase the loop body applies to that frame.
\<close>

fun frames :: "real \<Rightarrow> nat \<Rightarrow> gen_state \<Rightarrow> gen_state" where
  "frames delta_phase 0 s = s"
| "frames delta_phase (Suc k) s = frames delta_phase k (frame_state delta_phase s)"

definition envelope_at :: "real \<Rightarrow> gen_state \<Rightarrow> nat \<Rightarrow> real" where
  "envelope_at delta_phase s k = fst (fade_envelope (frames delta_phase k s))"

definition phase_at :: "real \<Rightarrow> gen_state \<Rightarrow> nat \<Rightarrow> real" where
  "phase_at delta_phase s k = g_phase (frames delta_phase k s)"

subsection \<open>The wrapped phase of the specification\<close>

text \<open>
  The specification's \<open>x mod 2\<pi>\<close> on the reals: \<open>x\<close> less the greatest multiple of
  \<open>2\<pi>\<close> that is not above it.
\<close>

definition mod_2pi :: "real \<Rightarrow> real" where
  "mod_2pi x = x - 2 * pi * real_of_int \<lfloor>x / (2 * pi)\<rfloor>"

subsection \<open>A keyed generator\<close>

text \<open>
  The state of the end-to-end scenario: initialised for blocks of 512 frames, the
  three callbacks registered (enabled, the frequency \<open>f\<close>, the volume \<open>v\<close>), and the
  transmitter keyed.
\<close>

definition keyed_state :: "int \<Rightarrow> real \<Rightarrow> gen_state" where
  "keyed_state f v =
     SidetoneGen_SetTXActive 1
       (SidetoneGen_SetCallbacks (Some (\<lambda>_. 1)) (Some (\<lambda>_. f)) (Some (\<lambda>_. v))
          (SidetoneGen_Initialize True 512 static_state))"

subsection \<open>Binary64 arithmetic\<close>

text \<open>
  A double is the real number it denotes. \<open>round64\<close> is IEEE 754 rounding to the
  nearest binary64, ties to even: \<open>x\<close> is rounded to a multiple of the unit in its
  last place, \<open>2^(e - 52)\<close> for \<open>2^e \<le> |x| < 2^(e + 1)\<close>, and \<open>2^(-1074)\<close> below the
  normal range. Infinities, NaN and the sign of zero are not modelled: no value the
  loop computes from finite parameters comes near \<open>2^1024\<close>.
\<close>

definition rne :: "real \<Rightarrow> int" where
  "rne y =
     (let n = \<lfloor>y\<rfloor>; r = y - real_of_int n
      in if r < 1 / 2 then n
         else if 1 / 2 < r then n + 1
         else if even n then n else n + 1)"

definition expo64 :: "real \<Rightarrow> int" where
  "expo64 x = max \<lfloor>log 2 \<bar>x\<bar>\<rfloor> (- 1022)"

definition ulp64 :: "real \<Rightarrow> real" where
  "ulp64 x = 2 powi (expo64 x - 52)"

definition round64 :: "real \<Rightarrow> real" where
  "round64 x = (if x = 0 then 0 else ulp64 x * real_of_int (rne (x / ulp64 x)))"

text \<open>\<open>M_PI\<close> of \<open>math.h\<close>: the double nearest to \<open>\<pi>\<close>, \<open>0x400921FB54442D18\<close>.\<close>

definition M_PI :: real where
  "M_PI = 7074237752028440 / 2 ^ 51"

subsection \<open>The generation loop in binary64\<close>

text \<open>
  The loop of \<open>SidetoneGen_Generate\<close> once more, every arithmetic operation rounded
  once. \<open>dsin\<close> is the C library's \<open>sin\<close> on doubles; the conversions of an \<open>int\<close>
  to \<open>double\<close> are exact for 32-bit values.
\<close>

text \<open>\<open>delta_phase = 2.0 * M_PI * freq / (double)samplerate\<close>.\<close>

definition delta_phase64 :: "int \<Rightarrow> int \<Rightarrow> real" where
  "delta_phase64 freq samplerate =
     round64 (round64 (round64 (2 * M_PI) * round64 (real_of_int freq))
       / round64 (real_of_int samplerate))"

definition fade_envelope64 :: "gen_state \<Rightarrow> real \<times> gen_state" where
  "fade_envelope64 s =
     (if g_fade_state s = 1 then
        let envelope = round64 (round64 (real_of_int (g_fade_counter s))
                         / round64 (real_of_int FADE_SAMPLES));
            s1 = s\<lparr>g_fade_counter := g_fade_counter s + 1\<rparr>
        in if g_fade_counter s1 \<ge> FADE_SAMPLES
           then (envelope, s1\<lparr>g_fade_state := 2\<rparr>)
           else (envelope, s1)
      else if g_fade_state s = 3 then
        let envelope = round64 (1 - round64 (round64 (real_of_int (g_fade_counter s))
                         / round64 (real_of_int FADE_SAMPLES)));
            s1 = s\<lparr>g_fade_counter := g_fade_counter s + 1\<rparr>
        in if g_fade_counter s1 \<ge> FADE_SAMPLES
           then (0, s1\<lparr>g_fade_state := 0\<rparr>)
           else (envelope, s1)
      else if g_fade_state s = 0 then (0, s)
      else (1, s))"

text \<open>\<open>g_phase += delta_phase; if (g_phase >= 2.0 * M_PI) g_phase -= 2.0 * M_PI\<close>.\<close>

definition update_phase64 :: "real \<Rightarrow> gen_state \<Rightarrow> gen_state" where
  "update_phase64 delta_phase s =
     (let s1 = s\<lparr>g_phase := round64 (g_phase s + delta_phase)\<rparr>
      in if g_phase s1 \<ge> round64 (2 * M_PI)
         then s1\<lparr>g_phase := round64 (g_phase s1 - round64 (2 * M_PI))\<rparr>
         else s1)"

text \<open>What \<open>update_phase64\<close> does to the phase, as a function of the phase.\<close>

definition phase_step64 :: "real \<Rightarrow> real \<Rightarrow> real" where
  "phase_step64 delta_phase phase =
     (let q = round64 (phase + delta_phase)
      in if q \<ge> round64 (2 * M_PI) then round64 (q - round64 (2 * M_PI)) else q)"

definition frame_sample64 :: "(real \<Rightarrow> real) \<Rightarrow> real \<Rightarrow> gen_state \<Rightarrow> real" where
  "frame_sample64 dsin volume s =
     (let sample = round64 (dsin (g_phase s) * volume);
          envelope = fst (fade_envelope64 s)
      in round64 (sample * envelope))"

definition frame_state64 :: "real \<Rightarrow> gen_state \<Rightarrow> gen_state" where
  "frame_state64 delta_phase s = update_phase64 delta_phase (snd (fade_envelope64 s))"

definition gen_frame64 ::
  "(real \<Rightarrow> real) \<Rightarrow> real \<Rightarrow> real \<Rightarrow> nat \<Rightarrow> real list \<Rightarrow> gen_state \<Rightarrow>
   fault + (real list \<times> gen_state)" where
  "gen_frame64 dsin volume delta_phase i buffer s =
     (let sample = frame_sample64 dsin volume s
      in if 2 * i + 1 < length buffer
         then Inr (buffer[2 * i := sample, 2 * i + 1 := sample], frame_state64 delta_phase s)
         else Inl OutOfBounds)"

function gen_loop64 ::
  "(real \<Rightarrow> real) \<Rightarrow> real \<Rightarrow> real \<Rightarrow> int \<Rightarrow> nat \<Rightarrow> real list \<Rightarrow> gen_state \<Rightarrow>
   fault + (real list \<times> gen_state)" where
  "gen_loop64 dsin volume delta_phase nsamples i buffer s =
     (if int i < nsamples then
        (case gen_frame64 dsin volume delta_phase i buffer s of
           Inl e \<Rightarrow> Inl e
         | Inr (buffer', s') \<Rightarrow> gen_loop64 dsin volume delta_phase nsamples (i + 1) buffer' s')
      else Inr (buffer, s))"
  by pat_completeness auto
termination
  by (relation
      "measure (\<lambda>(dsin, volume, delta_phase, nsamples, i, buffer, s). nat (nsamples - int i))")
     auto

declare gen_loop64.simps [simp del]

definition SidetoneGen_Generate64 ::
  "(real \<Rightarrow> real) \<Rightarrow> real list option \<Rightarrow> int \<Rightarrow> int \<Rightarrow> gen_state \<Rightarrow>
   fault + (real list option \<times> gen_state)" where
  "SidetoneGen_Generate64 dsin buffer nsamples samplerate s =
     (case (buffer, g_buffer s) of
        (Some out, Some _) \<Rightarrow>
          (case (g_getFreq s, g_getVolume s) of
             (Some getFreq, Some getVolume) \<Rightarrow>
               (let volume = getVolume ()
                in if samplerate = 0 then Inl NonFinite
                   else
                     let delta_phase = delta_phase64 (getFreq ()) samplerate
                     in (case gen_loop64 dsin volume delta_phase nsamples 0 out s of
                           Inl e \<Rightarrow> Inl e
                         | Inr (out', s') \<Rightarrow> Inr (Some out', s')))
           | _ \<Rightarrow>
               (case memset_zero out (nsamples * 2) of
                  Inl e \<Rightarrow> Inl e
                | Inr out' \<Rightarrow> Inr (Some out', s)))
      | _ \<Rightarrow> Inr (buffer, s))"

text \<open>The state before frame \<open>k\<close> and its phase, in binary64.\<close>

fun frames64 :: "real \<Rightarrow> nat \<Rightarrow> gen_state \<Rightarrow> gen_state" where
  "frames64 delta_phase 0 s = s"
| "frames64 delta_phase (Suc k) s = frames64 delta_phase k (frame_state64 delta_phase s)"

definition phase_at64 :: "real \<Rightarrow> gen_state \<Rightarrow> nat \<Rightarrow> real" where
  "phase_at64 delta_phase s k = g_phase (frames64 delta_phase k s)"

section \<open>Properties\<close>

subsection \<open>What a frame changes\<close>

lemma update_phase_fade [simp]:
  "g_fade_state (update_phase dp s) = g_fade_state s"
  "g_fade_counter (update_phase dp s) = g_fade_counter s"
  "g_tx_active (update_phase dp s) = g_tx_active s"
  by (simp_all add: update_phase_def Let_def)

lemma fade_envelope_rest [simp]:
  "g_tx_active (snd (fade_envelope s)) = g_tx_active s"
  "g_phase (snd (fade_envelope s)) = g_phase s"
  by (simp_all add: fade_envelope_def Let_def)

lemma frame_state_tx [simp]: "g_tx_active (frame_state dp s) = g_tx_active s"
  by (simp add: frame_state_def)

lemma frames_tx [simp]: "g_tx_active (frames dp k s) = g_tx_active s"
  by (induction k arbitrary: s) simp_all

lemma frames_add: "frames dp (a + b) s = frames dp b (frames dp a s)"
  by (induction a arbitrary: s) simp_all

lemma frames_Suc_back: "frames dp (Suc k) s = frame_state dp (frames dp k s)"
  using frames_add [of dp k 1 s] by simp

lemma frame_state_fade_in:
  "g_fade_state s = 1 \<Longrightarrow>
   g_fade_counter (frame_state dp s) = g_fade_counter s + 1 \<and>
   g_fade_state (frame_state dp s) = (if g_fade_counter s + 1 \<ge> 48 then 2 else 1)"
  by (simp add: frame_state_def fade_envelope_def FADE_SAMPLES_def Let_def)

lemma frame_state_fade_out:
  "g_fade_state s = 3 \<Longrightarrow>
   g_fade_counter (frame_state dp s) = g_fade_counter s + 1 \<and>
   g_fade_state (frame_state dp s) = (if g_fade_counter s + 1 \<ge> 48 then 0 else 3)"
  by (simp add: frame_state_def fade_envelope_def FADE_SAMPLES_def Let_def)

lemma frame_state_steady:
  "g_fade_state s \<noteq> 1 \<Longrightarrow> g_fade_state s \<noteq> 3 \<Longrightarrow>
   g_fade_counter (frame_state dp s) = g_fade_counter s \<and>
   g_fade_state (frame_state dp s) = g_fade_state s"
  by (simp add: frame_state_def fade_envelope_def FADE_SAMPLES_def Let_def)

lemma frames_fade_in:
  "g_fade_state s = 1 \<Longrightarrow> g_fade_counter s = int c \<Longrightarrow> c + k < 48 \<Longrightarrow>
   g_fade_state (frames dp k s) = 1 \<and> g_fade_counter (frames dp k s) = int (c + k)"
proof (induction k arbitrary: s c)
  case 0
  then show ?case by simp
next
  case (Suc k)
  have "g_fade_state (frame_state dp s) = 1" "g_fade_counter (frame_state dp s) = int (Suc c)"
    using Suc.prems frame_state_fade_in [of s dp] by simp_all
  from Suc.IH [OF this] Suc.prems(3) show ?case by simp
qed

lemma frames_fade_out:
  "g_fade_state s = 3 \<Longrightarrow> g_fade_counter s = int c \<Longrightarrow> c + k < 48 \<Longrightarrow>
   g_fade_state (frames dp k s) = 3 \<and> g_fade_counter (frames dp k s) = int (c + k)"
proof (induction k arbitrary: s c)
  case 0
  then show ?case by simp
next
  case (Suc k)
  have "g_fade_state (frame_state dp s) = 3" "g_fade_counter (frame_state dp s) = int (Suc c)"
    using Suc.prems frame_state_fade_out [of s dp] by simp_all
  from Suc.IH [OF this] Suc.prems(3) show ?case by simp
qed

lemma frames_steady:
  "g_fade_state s \<noteq> 1 \<Longrightarrow> g_fade_state s \<noteq> 3 \<Longrightarrow>
   g_fade_state (frames dp k s) = g_fade_state s \<and>
   g_fade_counter (frames dp k s) = g_fade_counter s"
proof (induction k arbitrary: s)
  case 0
  then show ?case by simp
next
  case (Suc k)
  then show ?case using frame_state_steady [of s dp] by simp
qed

lemma frames_fade_in_done:
  assumes "g_fade_state s = 1" "g_fade_counter s = 0" "48 \<le> k"
  shows "g_fade_state (frames dp k s) = 2"
proof -
  have a: "g_fade_state (frames dp 47 s) = 1 \<and> g_fade_counter (frames dp 47 s) = 47"
    using frames_fade_in [of s 0 47 dp] assms by simp
  have b: "g_fade_state (frames dp 48 s) = 2"
    using a frames_Suc_back [of dp 47 s] frame_state_fade_in [of "frames dp 47 s" dp] by simp
  have "frames dp k s = frames dp (k - 48) (frames dp 48 s)"
    using frames_add [of dp 48 "k - 48" s] assms(3) by simp
  then show ?thesis using b frames_steady [of "frames dp 48 s" dp "k - 48"] by simp
qed

lemma frames_fade_out_done:
  assumes "g_fade_state s = 3" "g_fade_counter s = 0" "48 \<le> k"
  shows "g_fade_state (frames dp k s) = 0"
proof -
  have a: "g_fade_state (frames dp 47 s) = 3 \<and> g_fade_counter (frames dp 47 s) = 47"
    using frames_fade_out [of s 0 47 dp] assms by simp
  have b: "g_fade_state (frames dp 48 s) = 0"
    using a frames_Suc_back [of dp 47 s] frame_state_fade_out [of "frames dp 47 s" dp] by simp
  have "frames dp k s = frames dp (k - 48) (frames dp 48 s)"
    using frames_add [of dp 48 "k - 48" s] assms(3) by simp
  then show ?thesis using b frames_steady [of "frames dp 48 s" dp "k - 48"] by simp
qed

lemma envelope_fade_in:
  "g_fade_state s = 1 \<Longrightarrow> fst (fade_envelope s) = real_of_int (g_fade_counter s) / 48"
  by (simp add: fade_envelope_def FADE_SAMPLES_def Let_def)

lemma envelope_fade_out:
  "g_fade_state s = 3 \<Longrightarrow>
   fst (fade_envelope s) =
     (if g_fade_counter s + 1 \<ge> 48 then 0 else 1 - real_of_int (g_fade_counter s) / 48)"
  by (simp add: fade_envelope_def FADE_SAMPLES_def Let_def)

lemma envelope_active: "g_fade_state s = 2 \<Longrightarrow> fst (fade_envelope s) = 1"
  by (simp add: fade_envelope_def)

lemma envelope_idle: "g_fade_state s = 0 \<Longrightarrow> fst (fade_envelope s) = 0"
  by (simp add: fade_envelope_def)

lemma SetTXActive_on:
  "g_tx_active s \<noteq> 1 \<Longrightarrow>
   SidetoneGen_SetTXActive 1 s = s\<lparr>g_tx_active := 1, g_phase := 0, g_fade_state := 1, g_fade_counter := 0\<rparr>"
  by (simp add: SidetoneGen_SetTXActive_def Let_def)

lemma SetTXActive_off:
  "g_tx_active s \<noteq> 0 \<Longrightarrow>
   SidetoneGen_SetTXActive 0 s = s\<lparr>g_tx_active := 0, g_fade_state := 3, g_fade_counter := 0\<rparr>"
  by (simp add: SidetoneGen_SetTXActive_def Let_def)

lemma keyed_state_simps:
  "g_tx_active (keyed_state f v) = 1"
  "g_phase (keyed_state f v) = 0"
  "g_fade_state (keyed_state f v) = 1"
  "g_fade_counter (keyed_state f v) = 0"
  "g_buffer (keyed_state f v) = Some (replicate 1024 0)"
  "g_getEnabled (keyed_state f v) = Some (\<lambda>_. 1)"
  "g_getFreq (keyed_state f v) = Some (\<lambda>_. f)"
  "g_getVolume (keyed_state f v) = Some (\<lambda>_. v)"
  by (simp_all add: keyed_state_def SidetoneGen_SetTXActive_def SidetoneGen_SetCallbacks_def
      SidetoneGen_Initialize_def malloc0_def static_state_def Let_def)

lemma envelope_at_fade_in:
  assumes "g_fade_state s = 1" and "g_fade_counter s = 0" and "i < 48"
  shows "envelope_at dp s i = real i / 48 \<and> g_fade_state (frames dp i s) = 1"
  using frames_fade_in [of s 0 i dp] assms
  by (simp add: envelope_at_def envelope_fade_in)

lemma envelope_at_fade_out:
  assumes "g_fade_state s = 3" and "g_fade_counter s = 0" and "i < 48"
  shows "envelope_at dp s i = (if i = 47 then 0 else 1 - real i / 48) \<and>
         g_fade_state (frames dp i s) = 3"
  using frames_fade_out [of s 0 i dp] assms
  by (auto simp add: envelope_at_def envelope_fade_out)

subsection \<open>The loop runs the frames in sequence\<close>

lemma gen_loop_result:
  "gen_loop v dp n i buf s = Inr (buf', s') \<Longrightarrow>
   s' = frames dp (nat n - i) s \<and> length buf' = length buf \<and>
   (\<forall>j < 2 * i. buf' ! j = buf ! j) \<and>
   (\<forall>k. int (i + k) < n \<longrightarrow>
      buf' ! (2 * (i + k)) = frame_sample v (frames dp k s) \<and>
      buf' ! (2 * (i + k) + 1) = frame_sample v (frames dp k s))"
proof (induction v dp n i buf s arbitrary: buf' s' rule: gen_loop.induct)
  case (1 v dp n i buf s)
  show ?case
  proof (cases "int i < n")
    case False
    then have "gen_loop v dp n i buf s = Inr (buf, s)"
      by (subst gen_loop.simps) simp
    with "1.prems" False show ?thesis by simp
  next
    case True
    define smp where "smp = frame_sample v s"
    define buf1 where "buf1 = buf[2 * i := smp, 2 * i + 1 := smp]"
    define s1 where "s1 = frame_state dp s"
    have inb: "2 * i + 1 < length buf"
      using "1.prems" True
      by (subst (asm) gen_loop.simps) (simp add: gen_frame_def Let_def split: if_splits)
    have gf: "gen_frame v dp i buf s = Inr (buf1, s1)"
      using inb by (simp add: gen_frame_def Let_def buf1_def s1_def smp_def)
    have rest: "gen_loop v dp n (i + 1) buf1 s1 = Inr (buf', s')"
      using "1.prems" True gf by (subst (asm) gen_loop.simps) simp
    note ih = "1.IH" [OF True gf refl rest]
    have st: "s' = frames dp (nat n - i) s"
    proof -
      have "nat n - i = Suc (nat n - (i + 1))" using True by linarith
      then show ?thesis using ih by (simp add: s1_def)
    qed
    have len: "length buf' = length buf"
      using ih by (simp add: buf1_def)
    have low: "buf' ! j = buf ! j" if "j < 2 * i" for j
    proof -
      have "buf' ! j = buf1 ! j" using ih that by simp
      then show ?thesis using that by (simp add: buf1_def)
    qed
    have here: "buf' ! (2 * i) = smp \<and> buf' ! (2 * i + 1) = smp"
    proof -
      have "buf' ! (2 * i) = buf1 ! (2 * i)" "buf' ! (2 * i + 1) = buf1 ! (2 * i + 1)"
        using ih by simp_all
      then show ?thesis using inb by (simp add: buf1_def)
    qed
    have up: "buf' ! (2 * (i + k)) = frame_sample v (frames dp k s) \<and>
        buf' ! (2 * (i + k) + 1) = frame_sample v (frames dp k s)" if "int (i + k) < n" for k
    proof (cases k)
      case 0
      then show ?thesis using here by (simp add: smp_def)
    next
      case (Suc k')
      then have "int (i + 1 + k') < n" using that by simp
      then have "buf' ! (2 * (i + 1 + k')) = frame_sample v (frames dp k' s1) \<and>
          buf' ! (2 * (i + 1 + k') + 1) = frame_sample v (frames dp k' s1)"
        using ih by blast
      then show ?thesis using Suc by (simp add: s1_def)
    qed
    from st len low up show ?thesis by blast
  qed
qed

lemma gen_loop_succeeds:
  "2 * nat n \<le> length buf \<Longrightarrow> \<exists>r. gen_loop v dp n i buf s = Inr r"
proof (induction v dp n i buf s rule: gen_loop.induct)
  case (1 v dp n i buf s)
  show ?case
  proof (cases "int i < n")
    case False
    then show ?thesis by (subst gen_loop.simps) simp
  next
    case True
    then have inb: "2 * i + 1 < length buf" using "1.prems" by linarith
    define buf1 where "buf1 = buf[2 * i := frame_sample v s, 2 * i + 1 := frame_sample v s]"
    have gf: "gen_frame v dp i buf s = Inr (buf1, frame_state dp s)"
      using inb by (simp add: gen_frame_def Let_def buf1_def)
    have "2 * nat n \<le> length buf1" using "1.prems" by (simp add: buf1_def)
    from "1.IH" [OF True gf refl this] obtain r
      where "gen_loop v dp n (i + 1) buf1 (frame_state dp s) = Inr r" by blast
    then show ?thesis using True gf by (subst gen_loop.simps) simp
  qed
qed

lemma Generate_runs:
  assumes "g_buffer s \<noteq> None" and "g_getFreq s = Some getFreq"
    and "g_getVolume s = Some getVolume" and "samplerate \<noteq> 0"
    and "dp = 2 * pi * real_of_int (getFreq ()) / real_of_int samplerate"
    and "2 * nat n \<le> length out"
  shows "\<exists>out'. SidetoneGen_Generate (Some out) n samplerate s
           = Inr (Some out', frames dp (nat n) s)"
proof -
  obtain r where r: "gen_loop (getVolume ()) dp n 0 out s = Inr r"
    using gen_loop_succeeds [OF assms(6), of "getVolume ()" dp 0 s] by blast
  obtain out' s' where r': "r = (out', s')" by (cases r)
  have "s' = frames dp (nat n) s"
    using gen_loop_result [of "getVolume ()" dp n 0 out s out' s'] r r' by simp
  then have "SidetoneGen_Generate (Some out) n samplerate s
      = Inr (Some out', frames dp (nat n) s)"
    using assms r r' by (auto simp add: SidetoneGen_Generate_def Let_def)
  then show ?thesis by blast
qed

lemma Generate_loop:
  assumes "g_buffer s \<noteq> None" and "g_getFreq s = Some getFreq"
    and "g_getVolume s = Some getVolume"
    and "dp = 2 * pi * real_of_int (getFreq ()) / real_of_int samplerate"
    and "SidetoneGen_Generate (Some out) n samplerate s = Inr (Some out', s')"
  shows "gen_loop (getVolume ()) dp n 0 out s = Inr (out', s')"
  using assms
  by (auto simp add: SidetoneGen_Generate_def Let_def split: if_splits sum.splits)

subsection \<open>The transmit edge and the activity query\<close>

text \<open>
  C8. Calling \<open>SidetoneGen_SetTXActive(1)\<close> twice in a row, from any state, gives the
  state that one call gives; a call with the stored transmit value changes nothing
  (no phase reset, no fade restart, no counter reset).
\<close>

theorem SetTXActive_idempotent:
  "SidetoneGen_SetTXActive 1 (SidetoneGen_SetTXActive 1 s) = SidetoneGen_SetTXActive 1 s \<and>
   SidetoneGen_SetTXActive (g_tx_active s) s = s"
  by (simp add: SidetoneGen_SetTXActive_def Let_def)

text \<open>
  C7. \<open>SidetoneGen_IsActive\<close> returns nonzero exactly when the transmit flag is
  nonzero and the enabled callback is registered and returns nonzero; without an
  enabled callback it returns 0; the fade state and its counter do not enter the
  result, so after a transmit-off edge it returns 0 although the fade-out has just
  begun.
\<close>

theorem IsActive_iff:
  "(SidetoneGen_IsActive s \<noteq> 0) =
     (g_tx_active s \<noteq> 0 \<and>
      (\<exists>getEnabled. g_getEnabled s = Some getEnabled \<and> getEnabled () \<noteq> 0)) \<and>
   SidetoneGen_IsActive (s\<lparr>g_getEnabled := None\<rparr>) = 0 \<and>
   SidetoneGen_IsActive (s\<lparr>g_fade_state := st, g_fade_counter := c\<rparr>) = SidetoneGen_IsActive s \<and>
   SidetoneGen_IsActive (SidetoneGen_SetTXActive 0 s) = 0 \<and>
   g_fade_state (SidetoneGen_SetTXActive 0 (s\<lparr>g_tx_active := 1\<rparr>)) = 3"
  by (auto simp add: SidetoneGen_IsActive_def SidetoneGen_SetTXActive_def Let_def
      split: option.splits)

text \<open>
  C10. A call \<open>SidetoneGen_SetTXActive(v)\<close> with \<open>v\<close> neither 0 nor 1, on a state
  whose transmit flag differs from \<open>v\<close>, takes the \<open>else\<close> branch: the flag becomes
  \<open>v\<close>, the fade state 3 (fade out) and the counter 0, the phase stays; the activity
  query then returns what the enabled callback returns, so it can report active while
  the envelope fades out.
\<close>

theorem SetTXActive_other_nonzero:
  "v \<noteq> 0 \<Longrightarrow> v \<noteq> 1 \<Longrightarrow> g_tx_active s \<noteq> v \<Longrightarrow>
   SidetoneGen_SetTXActive v s = s\<lparr>g_tx_active := v, g_fade_state := 3, g_fade_counter := 0\<rparr> \<and>
   g_phase (SidetoneGen_SetTXActive v s) = g_phase s \<and>
   (\<forall>getEnabled. g_getEnabled s = Some getEnabled \<longrightarrow>
      SidetoneGen_IsActive (SidetoneGen_SetTXActive v s) = getEnabled ())"
  by (simp add: SidetoneGen_IsActive_def SidetoneGen_SetTXActive_def Let_def)

theorem SetTXActive_other_nonzero_witness:
  "(2::int) \<noteq> 0 \<and> (2::int) \<noteq> 1 \<and>
   g_tx_active (static_state\<lparr>g_phase := 1, g_getEnabled := Some (\<lambda>_. 1)\<rparr>) \<noteq> 2 \<and>
   SidetoneGen_SetTXActive 2 (static_state\<lparr>g_phase := 1, g_getEnabled := Some (\<lambda>_. 1)\<rparr>)
     = static_state\<lparr>g_phase := 1, g_getEnabled := Some (\<lambda>_. 1),
         g_tx_active := 2, g_fade_state := 3, g_fade_counter := 0\<rparr> \<and>
   g_phase (SidetoneGen_SetTXActive 2 (static_state\<lparr>g_phase := 1, g_getEnabled := Some (\<lambda>_. 1)\<rparr>))
     = 1 \<and>
   SidetoneGen_IsActive
     (SidetoneGen_SetTXActive 2 (static_state\<lparr>g_phase := 1, g_getEnabled := Some (\<lambda>_. 1)\<rparr>)) = 1"
proof -
  let ?s = "static_state\<lparr>g_phase := 1, g_getEnabled := Some (\<lambda>_. 1)\<rparr>"
  have v: "(2::int) \<noteq> 0" "(2::int) \<noteq> 1" by simp_all
  have tx: "g_tx_active ?s \<noteq> 2" by (simp add: static_state_def)
  note th = SetTXActive_other_nonzero [OF v tx]
  have e1: "SidetoneGen_SetTXActive 2 ?s
      = ?s\<lparr>g_tx_active := 2, g_fade_state := 3, g_fade_counter := 0\<rparr>"
    using th by (rule conjunct1)
  have e2: "g_phase (SidetoneGen_SetTXActive 2 ?s) = 1"
    using th [THEN conjunct2, THEN conjunct1] by simp
  have e3: "SidetoneGen_IsActive (SidetoneGen_SetTXActive 2 ?s) = 1"
    using th [THEN conjunct2, THEN conjunct2, rule_format, of "\<lambda>_. 1"] by simp
  from v tx e1 e2 e3 show ?thesis by blast
qed

subsection \<open>The guards of the generation entry point\<close>

text \<open>
  C9. \<open>SidetoneGen_Generate\<close> with a \<open>NULL\<close> output buffer, or with \<open>g_buffer\<close>
  \<open>NULL\<close> (no successful initialisation), returns at once: the output buffer and the
  whole generator state are as before.
\<close>

theorem Generate_noop:
  "buffer = None \<or> g_buffer s = None \<Longrightarrow>
   SidetoneGen_Generate buffer nsamples samplerate s = Inr (buffer, s)"
  by (auto simp add: SidetoneGen_Generate_def split: option.splits)

theorem Generate_noop_witness:
  "g_buffer (SidetoneGen_Initialize False 512 static_state) = None \<and>
   SidetoneGen_Generate None 512 48000 (keyed_state 600 (1 / 2))
     = Inr (None, keyed_state 600 (1 / 2)) \<and>
   SidetoneGen_Generate (Some [1, 2]) 1 48000 (SidetoneGen_Initialize False 512 static_state)
     = Inr (Some [1, 2], SidetoneGen_Initialize False 512 static_state)"
proof -
  have nb: "g_buffer (SidetoneGen_Initialize False 512 static_state) = None"
    by (simp add: SidetoneGen_Initialize_def malloc0_def)
  have a: "None = (None :: real list option) \<or> g_buffer (keyed_state 600 (1 / 2)) = None"
    by simp
  have b: "Some [1, 2 :: real] = None \<or> g_buffer (SidetoneGen_Initialize False 512 static_state) = None"
    using nb by simp
  from Generate_noop [OF a, of 512 48000] Generate_noop [OF b, of 1 48000] nb
  show ?thesis by simp
qed

text \<open>
  C4. With the generator initialised, a non-\<open>NULL\<close> output buffer of at least
  \<open>2 * n\<close> doubles and no frequency or no volume callback registered,
  \<open>SidetoneGen_Generate\<close> sets the first \<open>2 * n\<close> doubles of the output to zero and
  leaves the generator state (phase, fade state and counter among it) as it was.
\<close>

theorem Generate_silence:
  assumes "g_getFreq s = None \<or> g_getVolume s = None"
    and "g_buffer s \<noteq> None" and "0 \<le> n" and "2 * nat n \<le> length out"
  shows "SidetoneGen_Generate (Some out) n sr s
           = Inr (Some (replicate (2 * nat n) 0 @ drop (2 * nat n) out), s) \<and>
         (\<forall>j < 2 * nat n. (replicate (2 * nat n) 0 @ drop (2 * nat n) out) ! j = 0)"
  using assms
  by (auto simp add: SidetoneGen_Generate_def memset_zero_def nth_append nat_mult_distrib
      mult.commute split: option.splits)

theorem Generate_silence_witness:
  "g_getFreq (SidetoneGen_SetTXActive 1 (SidetoneGen_Initialize True 2 static_state)) = None \<and>
   g_buffer (SidetoneGen_SetTXActive 1 (SidetoneGen_Initialize True 2 static_state)) \<noteq> None \<and>
   SidetoneGen_Generate (Some [1, 2, 3, 4, 5]) 2 48000
       (SidetoneGen_SetTXActive 1 (SidetoneGen_Initialize True 2 static_state))
     = Inr (Some [0, 0, 0, 0, 5],
         SidetoneGen_SetTXActive 1 (SidetoneGen_Initialize True 2 static_state))"
proof -
  let ?s = "SidetoneGen_SetTXActive 1 (SidetoneGen_Initialize True 2 static_state)"
  have f: "g_getFreq ?s = None" and b: "g_buffer ?s \<noteq> None"
    by (simp_all add: static_state_def SidetoneGen_Initialize_def SidetoneGen_SetTXActive_def
        malloc0_def)
  have fv: "g_getFreq ?s = None \<or> g_getVolume ?s = None" using f by simp
  have n: "(0::int) \<le> 2" and cap: "2 * nat 2 \<le> length [1, 2, 3, 4, 5 :: real]" by simp_all
  from Generate_silence [OF fv b n cap, of 48000]
  have "SidetoneGen_Generate (Some [1, 2, 3, 4, 5]) 2 48000 ?s = Inr (Some [0, 0, 0, 0, 5], ?s)"
    by (simp add: numeral_eq_Suc)
  then show ?thesis using f b by simp
qed

subsection \<open>The fade ramps\<close>

text \<open>
  C3. After a transmit-on edge (the stored flag was not 1), the envelope applied to
  frame \<open>i\<close>, for \<open>i < 48\<close>, is \<open>i / FADE_SAMPLES\<close> and the fade state before that
  frame is still 1 (fade in); before frame 48 the fade state is 2 (active) and the
  envelope applied to frame 48 is 1.
\<close>

theorem fade_in_ramp:
  assumes "g_tx_active s \<noteq> 1"
  shows "(i < 48 \<longrightarrow>
            envelope_at dp (SidetoneGen_SetTXActive 1 s) i = real i / real_of_int FADE_SAMPLES \<and>
            g_fade_state (frames dp i (SidetoneGen_SetTXActive 1 s)) = 1) \<and>
         g_fade_state (frames dp 48 (SidetoneGen_SetTXActive 1 s)) = 2 \<and>
         envelope_at dp (SidetoneGen_SetTXActive 1 s) 48 = 1"
proof -
  let ?s1 = "SidetoneGen_SetTXActive 1 s"
  have st: "g_fade_state ?s1 = 1" "g_fade_counter ?s1 = 0"
    using assms by (simp_all add: SetTXActive_on)
  have ramp: "envelope_at dp ?s1 i = real i / real_of_int FADE_SAMPLES \<and>
      g_fade_state (frames dp i ?s1) = 1" if "i < 48"
    using frames_fade_in [of ?s1 0 i dp] st that
    by (simp add: envelope_at_def envelope_fade_in FADE_SAMPLES_def)
  have fin: "g_fade_state (frames dp 48 ?s1) = 2"
    using frames_fade_in_done [of ?s1 48 dp] st by simp
  then have "envelope_at dp ?s1 48 = 1"
    by (simp add: envelope_at_def envelope_active)
  with ramp fin show ?thesis by blast
qed

theorem fade_in_ramp_witness:
  "g_tx_active static_state \<noteq> 1 \<and> (12::nat) < 48 \<and>
   envelope_at (pi / 40) (SidetoneGen_SetTXActive 1 static_state) 12 = 1 / 4 \<and>
   g_fade_state (frames (pi / 40) 12 (SidetoneGen_SetTXActive 1 static_state)) = 1 \<and>
   g_fade_state (frames (pi / 40) 48 (SidetoneGen_SetTXActive 1 static_state)) = 2 \<and>
   envelope_at (pi / 40) (SidetoneGen_SetTXActive 1 static_state) 48 = 1"
proof -
  have h: "g_tx_active static_state \<noteq> 1" by (simp add: static_state_def)
  show ?thesis using h fade_in_ramp [OF h, of 12 "pi / 40"] by (simp add: FADE_SAMPLES_def)
qed

text \<open>
  C2, as the code has it. From fade state 3 with counter 0, the envelope applied to
  frame \<open>i\<close> is \<open>1 - i / FADE_SAMPLES\<close> for \<open>i < 47\<close>; frame 47 brings the counter
  to \<open>FADE_SAMPLES\<close>, so its envelope is forced to 0 (not \<open>1 - 47/48\<close>) and the fade
  state becomes 0 (idle); frame 48 is an idle frame with envelope 0.
\<close>

theorem fade_out_ramp:
  assumes "g_fade_state s = 3" and "g_fade_counter s = 0"
  shows "(i < 47 \<longrightarrow>
            envelope_at dp s i = 1 - real i / real_of_int FADE_SAMPLES \<and>
            g_fade_state (frames dp i s) = 3) \<and>
         envelope_at dp s 47 = 0 \<and> g_fade_state (frames dp 47 s) = 3 \<and>
         g_fade_state (frames dp 48 s) = 0 \<and> envelope_at dp s 48 = 0"
proof -
  have ramp: "envelope_at dp s i = 1 - real i / real_of_int FADE_SAMPLES \<and>
      g_fade_state (frames dp i s) = 3" if "i < 47"
    using envelope_at_fade_out [OF assms, of i dp] that by (simp add: FADE_SAMPLES_def)
  have last: "envelope_at dp s 47 = 0 \<and> g_fade_state (frames dp 47 s) = 3"
    using envelope_at_fade_out [OF assms, of 47 dp] by simp
  have idle: "g_fade_state (frames dp 48 s) = 0"
    using frames_fade_out_done [OF assms, of 48 dp] by simp
  then have "envelope_at dp s 48 = 0"
    by (simp add: envelope_at_def envelope_idle)
  with ramp last idle show ?thesis by blast
qed

theorem fade_out_ramp_witness:
  "g_fade_state (SidetoneGen_SetTXActive 0 (keyed_state 600 (1 / 2))) = 3 \<and>
   g_fade_counter (SidetoneGen_SetTXActive 0 (keyed_state 600 (1 / 2))) = 0 \<and>
   (12::nat) < 47 \<and>
   envelope_at (pi / 40) (SidetoneGen_SetTXActive 0 (keyed_state 600 (1 / 2))) 12 = 3 / 4 \<and>
   envelope_at (pi / 40) (SidetoneGen_SetTXActive 0 (keyed_state 600 (1 / 2))) 47 = 0 \<and>
   g_fade_state (frames (pi / 40) 48 (SidetoneGen_SetTXActive 0 (keyed_state 600 (1 / 2)))) = 0 \<and>
   envelope_at (pi / 40) (SidetoneGen_SetTXActive 0 (keyed_state 600 (1 / 2))) 48 = 0"
proof -
  let ?s = "SidetoneGen_SetTXActive 0 (keyed_state 600 (1 / 2))"
  have a: "g_fade_state ?s = 3" and b: "g_fade_counter ?s = 0"
    by (simp_all add: SetTXActive_off keyed_state_simps)
  show ?thesis using a b fade_out_ramp [OF a b, of 12 "pi / 40"]
    by (simp add: FADE_SAMPLES_def)
qed

text \<open>
  Keyed, then unkeyed: the fade-out starts with counter 0. At frame 47 the envelope
  is 0, where the ramp \<open>1 - i / FADE_SAMPLES\<close> has \<open>1/48\<close>.
\<close>

theorem fade_out_ramp_counterexample:
  "g_fade_state (SidetoneGen_SetTXActive 0 (keyed_state 600 (1 / 2))) = 3 \<and>
   g_fade_counter (SidetoneGen_SetTXActive 0 (keyed_state 600 (1 / 2))) = 0 \<and>
   envelope_at (pi / 40) (SidetoneGen_SetTXActive 0 (keyed_state 600 (1 / 2))) 47 = 0 \<and>
   envelope_at (pi / 40) (SidetoneGen_SetTXActive 0 (keyed_state 600 (1 / 2))) 47
     \<noteq> 1 - real 47 / real_of_int FADE_SAMPLES"
proof -
  let ?s = "SidetoneGen_SetTXActive 0 (keyed_state 600 (1 / 2))"
  have a: "g_fade_state ?s = 3" and b: "g_fade_counter ?s = 0"
    by (simp_all add: SetTXActive_off keyed_state_simps)
  have "envelope_at (pi / 40) ?s 47 = 0"
    using envelope_at_fade_out [OF a b, of 47 "pi / 40"] by simp
  then show ?thesis using a b by (simp add: FADE_SAMPLES_def)
qed

text \<open>
  C1, as the code has it. A transmit-on edge followed, after \<open>k\<close> frames with
  \<open>0 < k < 48\<close>, by a transmit-off edge: the fade-in is still running, its last
  envelope was \<open>(k - 1) / FADE_SAMPLES\<close>; the off edge sets fade state 3 and counter
  0, and the first fade-out frame has envelope 1: the ramp starts at full level,
  not at the partial fade-in value.
\<close>

theorem interrupted_fade:
  assumes "g_tx_active s \<noteq> 1" and "0 < k" and "k < 48"
  shows "g_fade_state (frames dp k (SidetoneGen_SetTXActive 1 s)) = 1 \<and>
         envelope_at dp (SidetoneGen_SetTXActive 1 s) (k - 1)
           = real (k - 1) / real_of_int FADE_SAMPLES \<and>
         g_fade_state (SidetoneGen_SetTXActive 0 (frames dp k (SidetoneGen_SetTXActive 1 s))) = 3 \<and>
         g_fade_counter (SidetoneGen_SetTXActive 0 (frames dp k (SidetoneGen_SetTXActive 1 s))) = 0 \<and>
         envelope_at dp' (SidetoneGen_SetTXActive 0 (frames dp k (SidetoneGen_SetTXActive 1 s))) 0 = 1"
proof -
  let ?s1 = "SidetoneGen_SetTXActive 1 s"
  let ?s2 = "frames dp k ?s1"
  let ?s3 = "SidetoneGen_SetTXActive 0 ?s2"
  have st: "g_fade_state ?s1 = 1" "g_fade_counter ?s1 = 0" and tx: "g_tx_active ?s1 = 1"
    using assms(1) by (simp_all add: SetTXActive_on)
  have a: "g_fade_state ?s2 = 1"
    using envelope_at_fade_in [OF st, of k dp] assms(3) by simp
  have b: "envelope_at dp ?s1 (k - 1) = real (k - 1) / real_of_int FADE_SAMPLES"
    using envelope_at_fade_in [OF st, of "k - 1" dp] assms(3) by (simp add: FADE_SAMPLES_def)
  have "g_tx_active ?s2 \<noteq> 0" using tx by simp
  then have c: "g_fade_state ?s3 = 3" "g_fade_counter ?s3 = 0"
    by (simp_all add: SetTXActive_off)
  have d: "envelope_at dp' ?s3 0 = 1"
    using envelope_at_fade_out [OF c, of 0 dp'] by simp
  from a b c d show ?thesis by blast
qed

theorem interrupted_fade_witness:
  "g_tx_active static_state \<noteq> 1 \<and> (0::nat) < 24 \<and> (24::nat) < 48 \<and>
   g_fade_state (frames (pi / 40) 24 (SidetoneGen_SetTXActive 1 static_state)) = 1 \<and>
   envelope_at (pi / 40) (SidetoneGen_SetTXActive 1 static_state) 23 = 23 / 48 \<and>
   envelope_at (pi / 40)
     (SidetoneGen_SetTXActive 0 (frames (pi / 40) 24 (SidetoneGen_SetTXActive 1 static_state))) 0 = 1"
proof -
  have h: "g_tx_active static_state \<noteq> 1" by (simp add: static_state_def)
  have k: "(0::nat) < 24" "(24::nat) < 48" by simp_all
  show ?thesis using h interrupted_fade [OF h k, of "pi / 40" "pi / 40"]
    by (simp add: FADE_SAMPLES_def)
qed

text \<open>
  Keyed, 24 frames generated, then unkeyed: the last fade-in envelope is \<open>23/48\<close>,
  the first fade-out envelope is 1.
\<close>

theorem interrupted_fade_counterexample:
  "g_fade_state (frames (pi / 40) 24 (keyed_state 600 (1 / 2))) = 1 \<and>
   envelope_at (pi / 40) (keyed_state 600 (1 / 2)) 23 = 23 / 48 \<and>
   envelope_at (pi / 40)
     (SidetoneGen_SetTXActive 0 (frames (pi / 40) 24 (keyed_state 600 (1 / 2)))) 0 = 1 \<and>
   envelope_at (pi / 40)
     (SidetoneGen_SetTXActive 0 (frames (pi / 40) 24 (keyed_state 600 (1 / 2)))) 0
     \<noteq> envelope_at (pi / 40) (keyed_state 600 (1 / 2)) 23"
proof -
  let ?s1 = "keyed_state 600 (1 / 2)"
  let ?s3 = "SidetoneGen_SetTXActive 0 (frames (pi / 40) 24 ?s1)"
  have st: "g_fade_state ?s1 = 1" "g_fade_counter ?s1 = 0"
    by (simp_all add: keyed_state_simps)
  have a: "g_fade_state (frames (pi / 40) 24 ?s1) = 1"
    using envelope_at_fade_in [OF st, of 24 "pi / 40"] by simp
  have b: "envelope_at (pi / 40) ?s1 23 = 23 / 48"
    using envelope_at_fade_in [OF st, of 23 "pi / 40"] by simp
  have "g_tx_active (frames (pi / 40) 24 ?s1) \<noteq> 0" by (simp add: keyed_state_simps)
  then have c: "g_fade_state ?s3 = 3" "g_fade_counter ?s3 = 0"
    by (simp_all add: SetTXActive_off)
  have d: "envelope_at (pi / 40) ?s3 0 = 1"
    using envelope_at_fade_out [OF c, of 0 "pi / 40"] by simp
  from a b d show ?thesis by simp
qed

subsection \<open>The samples\<close>

text \<open>
  C6. With the callbacks registered and the generator initialised, a call on a buffer
  of at least \<open>2 * n\<close> doubles and a nonzero sample rate succeeds and leaves the state
  after \<open>n\<close> frames; and whenever a call succeeds, for each frame \<open>i < n\<close> both
  \<open>buffer[2*i]\<close> and \<open>buffer[2*i+1]\<close> hold \<open>sin(phase) * volume * envelope\<close>, with
  the phase before the frame's increment, the frame's envelope, and the volume the
  callback returned for the block.
\<close>

theorem Generate_samples:
  assumes "g_buffer s \<noteq> None" and "g_getFreq s = Some getFreq"
    and "g_getVolume s = Some getVolume"
    and "dp = 2 * pi * real_of_int (getFreq ()) / real_of_int samplerate"
  shows "(samplerate \<noteq> 0 \<and> 2 * nat n \<le> length out \<longrightarrow>
           (\<exists>out'. SidetoneGen_Generate (Some out) n samplerate s
                     = Inr (Some out', frames dp (nat n) s))) \<and>
         (SidetoneGen_Generate (Some out) n samplerate s = Inr (Some out', s') \<and> int i < n \<longrightarrow>
            out' ! (2 * i) = sin (phase_at dp s i) * getVolume () * envelope_at dp s i \<and>
            out' ! (2 * i + 1) = sin (phase_at dp s i) * getVolume () * envelope_at dp s i)"
proof (intro conjI impI)
  assume "samplerate \<noteq> 0 \<and> 2 * nat n \<le> length out"
  then show "\<exists>out'. SidetoneGen_Generate (Some out) n samplerate s
      = Inr (Some out', frames dp (nat n) s)"
    using Generate_runs [OF assms(1,2,3) _ assms(4)] by blast
next
  assume a: "SidetoneGen_Generate (Some out) n samplerate s = Inr (Some out', s') \<and> int i < n"
  then have "gen_loop (getVolume ()) dp n 0 out s = Inr (out', s')"
    using Generate_loop [OF assms] by blast
  from gen_loop_result [OF this] a
  have "out' ! (2 * (0 + i)) = frame_sample (getVolume ()) (frames dp i s) \<and>
      out' ! (2 * (0 + i) + 1) = frame_sample (getVolume ()) (frames dp i s)"
    by simp
  then show "out' ! (2 * i) = sin (phase_at dp s i) * getVolume () * envelope_at dp s i"
    and "out' ! (2 * i + 1) = sin (phase_at dp s i) * getVolume () * envelope_at dp s i"
    by (simp_all add: frame_sample_def phase_at_def envelope_at_def Let_def)
qed

theorem Generate_samples_witness:
  "\<exists>out'. SidetoneGen_Generate (Some [7, 7, 7, 7]) 2 48000 (keyed_state 600 (1 / 2))
            = Inr (Some out', frames (pi / 40) 2 (keyed_state 600 (1 / 2))) \<and>
          out' ! 2 = sin (pi / 40) * (1 / 2) * (1 / 48) \<and>
          out' ! 3 = sin (pi / 40) * (1 / 2) * (1 / 48)"
proof -
  let ?s = "keyed_state 600 (1 / 2)"
  have b: "g_buffer ?s \<noteq> None" and f: "g_getFreq ?s = Some (\<lambda>_. 600)"
    and v: "g_getVolume ?s = Some (\<lambda>_. 1 / 2)"
    by (simp_all add: keyed_state_simps)
  have d: "pi / 40 = 2 * pi * real_of_int ((\<lambda>_. 600) ()) / real_of_int 48000" by simp
  note th = Generate_samples [OF b f v d]
  have "\<exists>out'. SidetoneGen_Generate (Some [7, 7, 7, 7]) 2 48000 ?s
      = Inr (Some out', frames (pi / 40) (nat 2) ?s)"
    using th [of 2 "[7, 7, 7, 7]"] by simp
  then obtain out' where g: "SidetoneGen_Generate (Some [7, 7, 7, 7]) 2 48000 ?s
      = Inr (Some out', frames (pi / 40) 2 ?s)" by auto
  have ph: "phase_at (pi / 40) ?s 1 = pi / 40"
    using pi_gt_zero
    by (simp add: phase_at_def frame_state_def update_phase_def keyed_state_simps Let_def)
  have en: "envelope_at (pi / 40) ?s 1 = 1 / 48"
    using envelope_at_fade_in [of ?s 1 "pi / 40"] by (simp add: keyed_state_simps)
  have "out' ! (2 * 1) = sin (phase_at (pi / 40) ?s 1) * (1 / 2) * envelope_at (pi / 40) ?s 1 \<and>
      out' ! (2 * 1 + 1) = sin (phase_at (pi / 40) ?s 1) * (1 / 2) * envelope_at (pi / 40) ?s 1"
    using th [of 2 "[7, 7, 7, 7]" out' "frames (pi / 40) 2 ?s" 1] g by simp
  then have "out' ! 2 = sin (pi / 40) * (1 / 2) * (1 / 48) \<and>
      out' ! 3 = sin (pi / 40) * (1 / 2) * (1 / 48)"
    by (simp only: ph en) simp
  with g show ?thesis by blast
qed

subsection \<open>Rounding to binary64\<close>

lemma rne_cases: "rne y = \<lfloor>y\<rfloor> \<or> rne y = \<lfloor>y\<rfloor> + 1"
  by (simp add: rne_def Let_def)

lemma rne_of_int [simp]: "rne (real_of_int N) = N"
  by (simp add: rne_def Let_def)

lemma rne_le: "y \<le> real_of_int N \<Longrightarrow> rne y \<le> N"
proof (cases "y = real_of_int N")
  case True
  then show ?thesis by simp
next
  case False
  assume "y \<le> real_of_int N"
  with False have "y < real_of_int N" by simp
  then have "\<lfloor>y\<rfloor> < N" by (simp add: floor_less_iff)
  then show ?thesis using rne_cases [of y] by linarith
qed

lemma rne_ge: "real_of_int N \<le> y \<Longrightarrow> N \<le> rne y"
proof -
  assume "real_of_int N \<le> y"
  then have "N \<le> \<lfloor>y\<rfloor>" by (simp add: le_floor_iff)
  then show ?thesis using rne_cases [of y] by linarith
qed

lemma rne_err: "\<bar>real_of_int (rne y) - y\<bar> \<le> 1 / 2"
proof -
  have "real_of_int \<lfloor>y\<rfloor> \<le> y" "y < real_of_int \<lfloor>y\<rfloor> + 1" by linarith+
  then show ?thesis by (auto simp add: rne_def Let_def)
qed

lemma ulp64_pos [simp]: "0 < ulp64 x"
  by (simp add: ulp64_def)

lemma ulp64_nonneg [simp]: "0 \<le> ulp64 x"
  by (simp add: ulp64_def)

lemma ulp64_nonzero [simp]: "ulp64 x \<noteq> 0"
  by (simp add: ulp64_def)

lemma expo64_eq:
  assumes "2 powi e \<le> \<bar>x\<bar>" and "\<bar>x\<bar> < 2 powi (e + 1)" and "- 1022 \<le> e"
  shows "expo64 x = e"
proof -
  have "(0::real) < 2 powi e" by simp
  with assms(1) have pos: "0 < \<bar>x\<bar>" by linarith
  have "(2::real) powr real_of_int e \<le> \<bar>x\<bar>" "\<bar>x\<bar> < (2::real) powr (real_of_int e + 1)"
    using assms(1,2) powr_real_of_int' [of 2 e] powr_real_of_int' [of 2 "e + 1"] by simp_all
  then have "\<lfloor>log 2 \<bar>x\<bar>\<rfloor> = e"
    using floor_log_eq_powr_iff [of "\<bar>x\<bar>" 2 e] pos by simp
  then show ?thesis using assms(3) by (simp add: expo64_def)
qed

lemma expo64_less:
  assumes "x \<noteq> 0" and "\<bar>x\<bar> < 2 powi k" and "- 1022 < k"
  shows "expo64 x < k"
proof -
  have "\<bar>x\<bar> < (2::real) powr real_of_int k"
    using assms(2) powr_real_of_int' [of 2 k] by simp
  then have "log 2 \<bar>x\<bar> < real_of_int k"
    using assms(1) by (simp add: log_less_iff)
  then have "\<lfloor>log 2 \<bar>x\<bar>\<rfloor> < k" by (simp add: floor_less_iff)
  then show ?thesis using assms(3) by (simp add: expo64_def)
qed

lemma round64_eval:
  assumes "2 powi e \<le> \<bar>x\<bar>" and "\<bar>x\<bar> < 2 powi (e + 1)" and "- 1022 \<le> e"
    and "rne (x / 2 powi (e - 52)) = N"
  shows "round64 x = real_of_int N * 2 powi (e - 52)"
proof -
  have "(0::real) < 2 powi e" by simp
  with assms(1) have "0 < \<bar>x\<bar>" by linarith
  then have "x \<noteq> 0" by simp
  then show ?thesis
    using expo64_eq [OF assms(1-3)] assms(4) by (simp add: round64_def ulp64_def)
qed

lemma grid_coarser:
  assumes "a \<le> b"
  shows "real_of_int N * 2 powi b = real_of_int (N * 2 ^ nat (b - a)) * 2 powi a"
proof -
  have "(2::real) powi b = 2 powi (b - a) * 2 powi a"
    by (simp add: power_int_add [symmetric])
  also have "(2::real) powi (b - a) = 2 ^ nat (b - a)"
    using assms by (simp add: power_int_nonneg_exp)
  finally show ?thesis by simp
qed

lemma round64_le_grid:
  assumes "expo64 x - 52 \<le> b" and "x \<le> real_of_int N * 2 powi b"
  shows "round64 x \<le> real_of_int N * 2 powi b"
proof (cases "x = 0")
  case True
  then show ?thesis using assms(2) by (simp add: round64_def)
next
  case False
  let ?M = "N * 2 ^ nat (b - (expo64 x - 52))"
  have g: "real_of_int N * 2 powi b = real_of_int ?M * ulp64 x"
    unfolding ulp64_def by (rule grid_coarser [OF assms(1)])
  have "x \<le> real_of_int ?M * ulp64 x"
    using assms(2) by (simp only: g)
  then have "x / ulp64 x \<le> real_of_int ?M"
    by (simp only: pos_divide_le_eq [OF ulp64_pos])
  then have "rne (x / ulp64 x) \<le> ?M" by (rule rne_le)
  then have "real_of_int (rne (x / ulp64 x)) \<le> real_of_int ?M" by linarith
  then have "ulp64 x * real_of_int (rne (x / ulp64 x)) \<le> ulp64 x * real_of_int ?M"
    by (intro mult_left_mono) simp_all
  then show ?thesis using False by (simp only: g round64_def mult.commute if_False)
qed

lemma round64_ge_grid:
  assumes "expo64 x - 52 \<le> b" and "real_of_int N * 2 powi b \<le> x"
  shows "real_of_int N * 2 powi b \<le> round64 x"
proof (cases "x = 0")
  case True
  then show ?thesis using assms(2) by (simp add: round64_def)
next
  case False
  let ?M = "N * 2 ^ nat (b - (expo64 x - 52))"
  have g: "real_of_int N * 2 powi b = real_of_int ?M * ulp64 x"
    unfolding ulp64_def by (rule grid_coarser [OF assms(1)])
  have "real_of_int ?M * ulp64 x \<le> x"
    using assms(2) by (simp only: g)
  then have "real_of_int ?M \<le> x / ulp64 x"
    by (simp only: pos_le_divide_eq [OF ulp64_pos])
  then have "?M \<le> rne (x / ulp64 x)" by (rule rne_ge)
  then have "real_of_int ?M \<le> real_of_int (rne (x / ulp64 x))" by linarith
  then have "ulp64 x * real_of_int ?M \<le> ulp64 x * real_of_int (rne (x / ulp64 x))"
    by (intro mult_left_mono) simp_all
  then show ?thesis using False by (simp only: g round64_def mult.commute if_False)
qed

lemma round64_err: "\<bar>round64 x - x\<bar> \<le> ulp64 x / 2"
proof (cases "x = 0")
  case True
  then show ?thesis by (simp add: round64_def)
next
  case False
  have "\<bar>round64 x - x\<bar> = ulp64 x * \<bar>real_of_int (rne (x / ulp64 x)) - x / ulp64 x\<bar>"
  proof -
    have "round64 x - x = ulp64 x * (real_of_int (rne (x / ulp64 x)) - x / ulp64 x)"
      using False by (simp add: round64_def algebra_simps)
    then show ?thesis by (simp add: abs_mult)
  qed
  also have "\<dots> \<le> ulp64 x * (1 / 2)"
    by (intro mult_left_mono rne_err) simp
  finally show ?thesis by simp
qed

lemma round64_zero [simp]: "round64 0 = 0"
  by (simp add: round64_def)

lemma expo64_le:
  assumes "x \<noteq> 0" and "\<bar>x\<bar> < 2 powi (k + 1)" and "- 1022 \<le> k"
  shows "expo64 x \<le> k"
proof -
  have "expo64 x < k + 1" using assms by (intro expo64_less) simp_all
  then show ?thesis by simp
qed

lemma expo64_lt16: "x \<noteq> 0 \<Longrightarrow> \<bar>x\<bar> < 16 \<Longrightarrow> expo64 x \<le> 3"
  using expo64_le [of x 3] by simp

lemma expo64_lt8: "x \<noteq> 0 \<Longrightarrow> \<bar>x\<bar> < 8 \<Longrightarrow> expo64 x \<le> 2"
  using expo64_le [of x 2] by simp

lemma expo64_lt4: "x \<noteq> 0 \<Longrightarrow> \<bar>x\<bar> < 4 \<Longrightarrow> expo64 x \<le> 1"
  using expo64_le [of x 1] by simp

lemma round64_le_49:
  assumes "\<bar>x\<bar> < 16" and "x \<le> real_of_int N / 2 ^ 49"
  shows "round64 x \<le> real_of_int N / 2 ^ 49"
proof (cases "x = 0")
  case True
  then show ?thesis using assms(2) by simp
next
  case False
  have e: "expo64 x - 52 \<le> - 49" using expo64_lt16 [OF False assms(1)] by simp
  have p: "real_of_int N * 2 powi (- 49) = real_of_int N / 2 ^ 49"
    by (simp add: power_int_minus field_simps)
  show ?thesis using round64_le_grid [OF e, of N] assms(2) unfolding p by simp
qed

lemma round64_ge_49:
  assumes "\<bar>x\<bar> < 16" and "real_of_int N / 2 ^ 49 \<le> x"
  shows "real_of_int N / 2 ^ 49 \<le> round64 x"
proof (cases "x = 0")
  case True
  then show ?thesis using assms(2) by simp
next
  case False
  have e: "expo64 x - 52 \<le> - 49" using expo64_lt16 [OF False assms(1)] by simp
  have p: "real_of_int N * 2 powi (- 49) = real_of_int N / 2 ^ 49"
    by (simp add: power_int_minus field_simps)
  show ?thesis using round64_ge_grid [OF e, of N] assms(2) unfolding p by simp
qed

lemma round64_le_50:
  assumes "\<bar>x\<bar> < 8" and "x \<le> real_of_int N / 2 ^ 50"
  shows "round64 x \<le> real_of_int N / 2 ^ 50"
proof (cases "x = 0")
  case True
  then show ?thesis using assms(2) by simp
next
  case False
  have e: "expo64 x - 52 \<le> - 50" using expo64_lt8 [OF False assms(1)] by simp
  have p: "real_of_int N * 2 powi (- 50) = real_of_int N / 2 ^ 50"
    by (simp add: power_int_minus field_simps)
  show ?thesis using round64_le_grid [OF e, of N] assms(2) unfolding p by simp
qed

lemma round64_le_51:
  assumes "\<bar>x\<bar> < 4" and "x \<le> real_of_int N / 2 ^ 51"
  shows "round64 x \<le> real_of_int N / 2 ^ 51"
proof (cases "x = 0")
  case True
  then show ?thesis using assms(2) by simp
next
  case False
  have e: "expo64 x - 52 \<le> - 51" using expo64_lt4 [OF False assms(1)] by simp
  have p: "real_of_int N * 2 powi (- 51) = real_of_int N / 2 ^ 51"
    by (simp add: power_int_minus field_simps)
  show ?thesis using round64_le_grid [OF e, of N] assms(2) unfolding p by simp
qed

lemma round64_nonneg: "0 \<le> x \<Longrightarrow> 0 \<le> round64 x"
  using round64_ge_grid [of x "expo64 x - 52" 0] by simp

lemma round64_nonpos: "x \<le> 0 \<Longrightarrow> round64 x \<le> 0"
  using round64_le_grid [of x "expo64 x - 52" 0] by simp

lemma round64_err_50:
  assumes "\<bar>x\<bar> < 16"
  shows "\<bar>round64 x - x\<bar> \<le> 1 / 2 ^ 50"
proof (cases "x = 0")
  case True
  then show ?thesis by simp
next
  case False
  have "expo64 x - 52 \<le> - 49" using expo64_lt16 [OF False assms] by simp
  then have "ulp64 x \<le> 2 powi (- 49)"
    unfolding ulp64_def by (intro power_int_increasing) simp_all
  also have "\<dots> = 1 / 2 ^ 49" by (simp add: power_int_minus field_simps)
  finally have "ulp64 x / 2 \<le> 1 / 2 ^ 50" by simp
  with round64_err [of x] show ?thesis by linarith
qed

lemma round64_at:
  assumes "2 powi e \<le> \<bar>x\<bar>" and "\<bar>x\<bar> < 2 powi (e + 1)" and "- 1022 \<le> e"
    and "rne (x / 2 powi (e - 52)) = N" and "y = real_of_int N * 2 powi (e - 52)"
  shows "round64 x = y"
  using round64_eval [OF assms(1-4)] assms(5) by simp

lemma err_add:
  fixes a b :: real
  assumes "\<bar>a\<bar> \<le> 1 / 2 ^ 50" and "\<bar>b\<bar> \<le> 1 / 2 ^ 50"
  shows "\<bar>a + b\<bar> \<le> 1 / 2 ^ 49"
proof -
  have "\<bar>a + b\<bar> \<le> \<bar>a\<bar> + \<bar>b\<bar>" by (rule abs_triangle_ineq)
  also have "\<dots> \<le> 1 / 2 ^ 50 + 1 / 2 ^ 50" using assms by (rule add_mono)
  also have "\<dots> = 1 / 2 ^ 49" by simp
  finally show ?thesis .
qed

lemma two_pi64: "round64 (2 * M_PI) = 7074237752028440 / 2 ^ 50"
proof -
  have "round64 (2 * M_PI) = real_of_int 7074237752028440 * 2 powi (2 - 52)"
    by (rule round64_eval) (simp_all add: M_PI_def rne_def)
  then show ?thesis by (simp add: power_int_minus field_simps)
qed

lemma round64_ge_pow2:
  assumes "2 powi k \<le> x" and "- 1022 \<le> k"
  shows "2 powi k \<le> round64 x"
proof -
  let ?e = "\<lfloor>log 2 x\<rfloor>"
  have "(0::real) < 2 powi k" by simp
  with assms(1) have pos: "0 < x" by linarith
  have "(2::real) powr real_of_int k \<le> x"
    using assms(1) powr_real_of_int' [of 2 k] by simp
  then have "real_of_int k \<le> log 2 x" using pos by (simp add: le_log_iff)
  then have ke: "k \<le> ?e" by (simp add: le_floor_iff)
  then have ex: "expo64 x = ?e" using assms(2) pos by (simp add: expo64_def)
  have "(2::real) powr real_of_int ?e \<le> x"
    using pos floor_log_eq_powr_iff [of x 2 ?e] by simp
  then have lo: "2 powi ?e \<le> x" using powr_real_of_int' [of 2 ?e] by simp
  have g: "real_of_int (2 ^ 52) * 2 powi (?e - 52) = 2 powi ?e"
    by (simp add: power_int_diff)
  have "real_of_int (2 ^ 52) * 2 powi (?e - 52) \<le> round64 x"
    by (rule round64_ge_grid) (simp_all only: ex g lo order_refl)
  then have "2 powi ?e \<le> round64 x" by (simp only: g)
  moreover have "(2::real) powi k \<le> 2 powi ?e"
    using ke by (intro power_int_increasing) simp_all
  ultimately show ?thesis by linarith
qed

lemma round64_below_two_pi:
  assumes "round64 y < round64 (2 * M_PI)"
  shows "round64 y \<le> 7074237752028439 / 2 ^ 50"
proof -
  consider "y < 4" | "4 \<le> y" "y < 8" | "8 \<le> y" by linarith
  then show ?thesis
  proof cases
    case 1
    show ?thesis
    proof (cases "y \<le> 0")
      case True
      then have "round64 y \<le> 0" by (rule round64_nonpos)
      then show ?thesis by simp
    next
      case False
      with 1 have "\<bar>y\<bar> < 4" by simp
      moreover have "y \<le> real_of_int (2 ^ 53) / 2 ^ 51" using 1 by simp
      ultimately have "round64 y \<le> real_of_int (2 ^ 53) / 2 ^ 51" by (rule round64_le_51)
      then show ?thesis by simp
    qed
  next
    case 2
    then have "2 powi 2 \<le> \<bar>y\<bar>" "\<bar>y\<bar> < 2 powi (2 + 1)" by simp_all
    then have "round64 y = real_of_int (rne (y / 2 powi (2 - 52))) * 2 powi (2 - 52)"
      by (intro round64_eval) simp_all
    then have r: "round64 y = real_of_int (rne (y / 2 powi (2 - 52))) / 2 ^ 50"
      by (simp add: power_int_minus field_simps)
    then have "real_of_int (rne (y / 2 powi (2 - 52))) < real_of_int 7074237752028440"
      using assms by (simp add: two_pi64 divide_less_cancel)
    then have "rne (y / 2 powi (2 - 52)) \<le> 7074237752028439" by linarith
    then have "real_of_int (rne (y / 2 powi (2 - 52))) \<le> 7074237752028439" by linarith
    then show ?thesis by (simp only: r) (simp add: divide_right_mono)
  next
    case 3
    then have "2 powi 3 \<le> y" by simp
    then have "2 powi 3 \<le> round64 y" by (rule round64_ge_pow2) simp
    then show ?thesis using assms by (simp add: two_pi64)
  qed
qed

lemma phase_step64_props:
  assumes "0 \<le> p" and "p \<le> 7074237752028439 / 2 ^ 50"
    and "0 \<le> d" and "d \<le> 7074237752028439 / 2 ^ 50"
  shows "0 \<le> phase_step64 d p \<and> phase_step64 d p \<le> 7074237752028439 / 2 ^ 50 \<and>
         (\<exists>w::int. \<bar>phase_step64 d p - (p + d - real_of_int w * round64 (2 * M_PI))\<bar>
            \<le> 1 / 2 ^ 49)"
proof -
  let ?T = "round64 (2 * M_PI)"
  let ?q = "round64 (p + d)"
  have s16: "\<bar>p + d\<bar> < 16" using assms by simp
  have q0: "0 \<le> ?q" using assms by (intro round64_nonneg) simp
  have "p + d \<le> real_of_int 7074237752028439 / 2 ^ 49" using assms by simp
  with s16 have "?q \<le> real_of_int 7074237752028439 / 2 ^ 49" by (rule round64_le_49)
  then have q1: "?q \<le> 7074237752028439 / 2 ^ 49" by simp
  have qe: "\<bar>?q - (p + d)\<bar> \<le> 1 / 2 ^ 50" using s16 by (rule round64_err_50)
  show ?thesis
  proof (cases "?q \<ge> ?T")
    case True
    let ?r = "round64 (?q - ?T)"
    have ps: "phase_step64 d p = ?r" using True by (simp add: phase_step64_def Let_def)
    have d0: "0 \<le> ?q - ?T" using True by simp
    have d1: "?q - ?T \<le> real_of_int 7074237752028438 / 2 ^ 50"
      using q1 by (simp add: two_pi64)
    have d8: "\<bar>?q - ?T\<bar> < 8" using d0 d1 by simp
    have r0: "0 \<le> ?r" using d0 by (rule round64_nonneg)
    have "?r \<le> real_of_int 7074237752028438 / 2 ^ 50" using d8 d1 by (rule round64_le_50)
    then have r1: "?r \<le> 7074237752028439 / 2 ^ 50" by simp
    have "\<bar>?r - (?q - ?T)\<bar> \<le> 1 / 2 ^ 50" using d8 by (intro round64_err_50) simp
    from err_add [OF this qe]
    have "\<bar>?r - (p + d - real_of_int 1 * ?T)\<bar> \<le> 1 / 2 ^ 49" by (simp add: algebra_simps)
    then have "\<exists>w::int. \<bar>?r - (p + d - real_of_int w * ?T)\<bar> \<le> 1 / 2 ^ 49" by blast
    with r0 r1 ps show ?thesis by simp
  next
    case False
    then have ps: "phase_step64 d p = ?q" by (simp add: phase_step64_def Let_def)
    from False have "?q < ?T" by simp
    then have q2: "?q \<le> 7074237752028439 / 2 ^ 50" by (rule round64_below_two_pi)
    have "\<bar>0::real\<bar> \<le> 1 / 2 ^ 50" by simp
    from err_add [OF qe this]
    have "\<bar>?q - (p + d - real_of_int 0 * ?T)\<bar> \<le> 1 / 2 ^ 49" by simp
    then have "\<exists>w::int. \<bar>?q - (p + d - real_of_int w * ?T)\<bar> \<le> 1 / 2 ^ 49" by blast
    with q0 q2 ps show ?thesis by simp
  qed
qed

subsection \<open>The binary64 loop runs the frames in sequence\<close>

lemma fade_envelope64_phase [simp]: "g_phase (snd (fade_envelope64 s)) = g_phase s"
  by (simp add: fade_envelope64_def Let_def)

lemma frame_state64_phase: "g_phase (frame_state64 d s) = phase_step64 d (g_phase s)"
  by (simp add: frame_state64_def update_phase64_def phase_step64_def Let_def)

lemma frames64_add: "frames64 d (a + b) s = frames64 d b (frames64 d a s)"
  by (induction a arbitrary: s) simp_all

lemma phase_at64_0 [simp]: "phase_at64 d s 0 = g_phase s"
  by (simp add: phase_at64_def)

lemma phase_at64_Suc: "phase_at64 d s (Suc k) = phase_step64 d (phase_at64 d s k)"
proof -
  have "frames64 d (Suc k) s = frame_state64 d (frames64 d k s)"
    using frames64_add [of d k 1 s] by simp
  then show ?thesis by (simp only: phase_at64_def frame_state64_phase)
qed

lemma gen_loop64_state:
  "gen_loop64 dsin v d n i buf s = Inr (buf', s') \<Longrightarrow> s' = frames64 d (nat n - i) s"
proof (induction dsin v d n i buf s arbitrary: buf' s' rule: gen_loop64.induct)
  case (1 dsin v d n i buf s)
  show ?case
  proof (cases "int i < n")
    case False
    then have "gen_loop64 dsin v d n i buf s = Inr (buf, s)"
      by (subst gen_loop64.simps) simp
    with "1.prems" False show ?thesis by simp
  next
    case True
    define buf1 where
      "buf1 = buf[2 * i := frame_sample64 dsin v s, 2 * i + 1 := frame_sample64 dsin v s]"
    have inb: "2 * i + 1 < length buf"
      using "1.prems" True
      by (subst (asm) gen_loop64.simps) (simp add: gen_frame64_def Let_def split: if_splits)
    have gf: "gen_frame64 dsin v d i buf s = Inr (buf1, frame_state64 d s)"
      using inb by (simp add: gen_frame64_def Let_def buf1_def)
    have rest: "gen_loop64 dsin v d n (i + 1) buf1 (frame_state64 d s) = Inr (buf', s')"
      using "1.prems" True gf by (subst (asm) gen_loop64.simps) simp
    have "nat n - i = Suc (nat n - (i + 1))" using True by linarith
    then show ?thesis using "1.IH" [OF True gf refl rest] by simp
  qed
qed

lemma gen_loop64_succeeds:
  "2 * nat n \<le> length buf \<Longrightarrow> \<exists>r. gen_loop64 dsin v d n i buf s = Inr r"
proof (induction dsin v d n i buf s rule: gen_loop64.induct)
  case (1 dsin v d n i buf s)
  show ?case
  proof (cases "int i < n")
    case False
    then show ?thesis by (subst gen_loop64.simps) simp
  next
    case True
    then have inb: "2 * i + 1 < length buf" using "1.prems" by linarith
    define buf1 where
      "buf1 = buf[2 * i := frame_sample64 dsin v s, 2 * i + 1 := frame_sample64 dsin v s]"
    have gf: "gen_frame64 dsin v d i buf s = Inr (buf1, frame_state64 d s)"
      using inb by (simp add: gen_frame64_def Let_def buf1_def)
    have "2 * nat n \<le> length buf1" using "1.prems" by (simp add: buf1_def)
    from "1.IH" [OF True gf refl this] obtain r
      where "gen_loop64 dsin v d n (i + 1) buf1 (frame_state64 d s) = Inr r" by blast
    then show ?thesis using True gf by (subst gen_loop64.simps) simp
  qed
qed

lemma Generate64_runs:
  assumes "g_buffer s \<noteq> None" and "g_getFreq s = Some getFreq"
    and "g_getVolume s = Some getVolume" and "samplerate \<noteq> 0"
    and "d = delta_phase64 (getFreq ()) samplerate"
    and "2 * nat n \<le> length out"
  shows "\<exists>out'. SidetoneGen_Generate64 dsin (Some out) n samplerate s
           = Inr (Some out', frames64 d (nat n) s)"
proof -
  obtain r where r: "gen_loop64 dsin (getVolume ()) d n 0 out s = Inr r"
    using gen_loop64_succeeds [OF assms(6), of dsin "getVolume ()" d 0 s] by blast
  obtain out' s' where r': "r = (out', s')" by (cases r)
  have "s' = frames64 d (nat n) s"
    using gen_loop64_state [of dsin "getVolume ()" d n 0 out s out' s'] r r' by simp
  then have "SidetoneGen_Generate64 dsin (Some out) n samplerate s
      = Inr (Some out', frames64 d (nat n) s)"
    using assms r r' by (auto simp add: SidetoneGen_Generate64_def Let_def)
  then show ?thesis by blast
qed

lemma delta_phase64_below:
  assumes "delta_phase64 f sr < round64 (2 * M_PI)"
  shows "delta_phase64 f sr \<le> 7074237752028439 / 2 ^ 50"
  using assms unfolding delta_phase64_def by (rule round64_below_two_pi)

lemma phase_at64_props:
  assumes "0 \<le> d" and "d \<le> 7074237752028439 / 2 ^ 50" and "g_phase s = 0"
  shows "0 \<le> phase_at64 d s k \<and> phase_at64 d s k \<le> 7074237752028439 / 2 ^ 50 \<and>
         (\<exists>m::int. \<bar>phase_at64 d s k - (real k * d - real_of_int m * round64 (2 * M_PI))\<bar>
            \<le> real k / 2 ^ 49)"
proof (induction k)
  case 0
  have "\<bar>phase_at64 d s 0 - (real 0 * d - real_of_int 0 * round64 (2 * M_PI))\<bar>
      \<le> real 0 / 2 ^ 49"
    using assms(3) by simp
  then have "\<exists>m::int. \<bar>phase_at64 d s 0 - (real 0 * d - real_of_int m * round64 (2 * M_PI))\<bar>
      \<le> real 0 / 2 ^ 49" by blast
  then show ?case using assms(3) by simp
next
  case (Suc k)
  let ?T = "round64 (2 * M_PI)"
  let ?p = "phase_at64 d s k"
  from Suc obtain m :: int where p0: "0 \<le> ?p" and p1: "?p \<le> 7074237752028439 / 2 ^ 50"
    and pm: "\<bar>?p - (real k * d - real_of_int m * ?T)\<bar> \<le> real k / 2 ^ 49"
    by blast
  from phase_step64_props [OF p0 p1 assms(1,2)] obtain w :: int
    where q0: "0 \<le> phase_step64 d ?p" and q1: "phase_step64 d ?p \<le> 7074237752028439 / 2 ^ 50"
      and qw: "\<bar>phase_step64 d ?p - (?p + d - real_of_int w * ?T)\<bar> \<le> 1 / 2 ^ 49"
    by blast
  have eq: "phase_step64 d ?p - (real (Suc k) * d - real_of_int (m + w) * ?T)
      = (phase_step64 d ?p - (?p + d - real_of_int w * ?T))
        + (?p - (real k * d - real_of_int m * ?T))"
    by (simp add: algebra_simps)
  have "\<bar>(phase_step64 d ?p - (?p + d - real_of_int w * ?T))
        + (?p - (real k * d - real_of_int m * ?T))\<bar>
      \<le> 1 / 2 ^ 49 + real k / 2 ^ 49"
    using qw pm by (intro order_trans [OF abs_triangle_ineq] add_mono)
  then have "\<bar>phase_step64 d ?p - (real (Suc k) * d - real_of_int (m + w) * ?T)\<bar>
      \<le> 1 / 2 ^ 49 + real k / 2 ^ 49"
    by (simp only: eq)
  also have "\<dots> = real (Suc k) / 2 ^ 49" by (simp add: field_simps)
  finally have "\<exists>m::int. \<bar>phase_step64 d ?p - (real (Suc k) * d - real_of_int m * ?T)\<bar>
      \<le> real (Suc k) / 2 ^ 49" by blast
  with q0 q1 show ?case by (simp only: phase_at64_Suc)
qed

text \<open>Both models run the same fade state machine: they differ in the doubles only.\<close>

lemma frame_state64_fade:
  "frame_state64 d (s\<lparr>g_phase := x\<rparr>) = (frame_state d' s)\<lparr>g_phase := phase_step64 d x\<rparr>"
  by (simp add: frame_state64_def frame_state_def update_phase64_def update_phase_def
      fade_envelope64_def fade_envelope_def phase_step64_def Let_def)

lemma frames64_fade:
  "\<exists>y. frames64 d k (s\<lparr>g_phase := x\<rparr>) = (frames d' k s)\<lparr>g_phase := y\<rparr>"
proof (induction k arbitrary: s x)
  case 0
  show ?case by auto
next
  case (Suc k)
  from Suc [where s = "frame_state d' s" and x = "phase_step64 d x"] show ?case
    by (simp add: frame_state64_fade [where d' = d'])
qed

lemma frames64_same_fade:
  "g_fade_state (frames64 d k s) = g_fade_state (frames d' k s) \<and>
   g_fade_counter (frames64 d k s) = g_fade_counter (frames d' k s) \<and>
   g_tx_active (frames64 d k s) = g_tx_active (frames d' k s)"
proof -
  obtain y where "frames64 d k (s\<lparr>g_phase := g_phase s\<rparr>) = (frames d' k s)\<lparr>g_phase := y\<rparr>"
    using frames64_fade [where d = d and k = k and s = s and x = "g_phase s" and d' = d']
    by blast
  then have "frames64 d k s = (frames d' k s)\<lparr>g_phase := y\<rparr>" by simp
  then show ?thesis by simp
qed

subsection \<open>Two runs in binary64\<close>

text \<open>
  The phase increment at 1000 Hz and at -600 Hz, for 48000 frames per second, and
  the 48 frames of one period of the 1000 Hz tone: the sum of 48 rounded increments
  ends five units in the last place below \<open>2.0 * M_PI\<close>, so the loop does not wrap.
\<close>

lemma phase_at64_next:
  assumes "phase_at64 d s k = p" and "round64 (p + d) = q" and "q < round64 (2 * M_PI)"
    and "k' = Suc k"
  shows "phase_at64 d s k' = q"
  using assms by (simp add: phase_at64_Suc phase_step64_def Let_def)

lemma delta_phase64_1000: "delta_phase64 (1000) 48000 = 4716158501352293 / 2 ^ 55"
proof -
  have a: "round64 (1000) = 1000"
    by (rule round64_at [where e = "9" and N = "8796093022208000"]) (simp_all add: rne_def)
  have b: "round64 (7074237752028440 / 2 ^ 50 * 1000) = 6908435304715273 / 2 ^ 40"
    by (rule round64_at [where e = "12" and N = "6908435304715273"]) (simp_all add: rne_def)
  have c: "round64 (48000) = 48000"
    by (rule round64_at [where e = "15" and N = "6597069766656000"]) (simp_all add: rne_def)
  have d: "round64 (6908435304715273 / 2 ^ 40 / 48000) = 4716158501352293 / 2 ^ 55"
    by (rule round64_at [where e = "- 3" and N = "4716158501352293"]) (simp_all add: rne_def)
  show ?thesis by (simp only: delta_phase64_def two_pi64 of_int_numeral of_int_minus a b c d)
qed

lemma delta_phase64_neg600: "delta_phase64 (- 600) 48000 = - (176855943800711 / 2 ^ 51)"
proof -
  have a: "round64 (- 600) = - 600"
    by (rule round64_at [where e = "9" and N = "- 5277655813324800"]) (simp_all add: rne_def)
  have b: "round64 (7074237752028440 / 2 ^ 50 * - 600) = - (1036265295707291 / 2 ^ 38)"
    by (rule round64_at [where e = "11" and N = "- 8290122365658328"]) (simp_all add: rne_def)
  have c: "round64 (48000) = 48000"
    by (rule round64_at [where e = "15" and N = "6597069766656000"]) (simp_all add: rne_def)
  have d: "round64 (- (1036265295707291 / 2 ^ 38) / 48000) = - (176855943800711 / 2 ^ 51)"
    by (rule round64_at [where e = "- 4" and N = "- 5659390201622752"]) (simp_all add: rne_def)
  show ?thesis by (simp only: delta_phase64_def two_pi64 of_int_numeral of_int_minus a b c d)
qed

lemma phase_at64_1000:
  assumes "g_phase s = 0"
  shows "phase_at64 (4716158501352293 / 2 ^ 55) s 48 = 7074237752028435 / 2 ^ 50"
proof -
  have p0: "phase_at64 (4716158501352293 / 2 ^ 55) s 0 = 0" using assms by simp
  have p1: "phase_at64 (4716158501352293 / 2 ^ 55) s 1 = 4716158501352293 / 2 ^ 55"
  proof (rule phase_at64_next [OF p0])
    show "round64 (0 + 4716158501352293 / 2 ^ 55) = 4716158501352293 / 2 ^ 55"
      by (rule round64_at [where e = "- 3" and N = "4716158501352293"]) (simp_all add: rne_def)
  qed (simp_all add: two_pi64)
  have p2: "phase_at64 (4716158501352293 / 2 ^ 55) s 2 = 4716158501352293 / 2 ^ 54"
  proof (rule phase_at64_next [OF p1])
    show "round64 (4716158501352293 / 2 ^ 55 + 4716158501352293 / 2 ^ 55) = 4716158501352293 / 2 ^ 54"
      by (rule round64_at [where e = "- 2" and N = "4716158501352293"]) (simp_all add: rne_def)
  qed (simp_all add: two_pi64)
  have p3: "phase_at64 (4716158501352293 / 2 ^ 55) s 3 = 884279719003555 / 2 ^ 51"
  proof (rule phase_at64_next [OF p2])
    show "round64 (4716158501352293 / 2 ^ 54 + 4716158501352293 / 2 ^ 55) = 884279719003555 / 2 ^ 51"
      by (rule round64_at [where e = "- 2" and N = "7074237752028440"]) (simp_all add: rne_def)
  qed (simp_all add: two_pi64)
  have p4: "phase_at64 (4716158501352293 / 2 ^ 55) s 4 = 4716158501352293 / 2 ^ 53"
  proof (rule phase_at64_next [OF p3])
    show "round64 (884279719003555 / 2 ^ 51 + 4716158501352293 / 2 ^ 55) = 4716158501352293 / 2 ^ 53"
      by (rule round64_at [where e = "- 1" and N = "4716158501352293"]) (simp_all add: rne_def)
  qed (simp_all add: two_pi64)
  have p5: "phase_at64 (4716158501352293 / 2 ^ 55) s 5 = 2947599063345183 / 2 ^ 52"
  proof (rule phase_at64_next [OF p4])
    show "round64 (4716158501352293 / 2 ^ 53 + 4716158501352293 / 2 ^ 55) = 2947599063345183 / 2 ^ 52"
      by (rule round64_at [where e = "- 1" and N = "5895198126690366"]) (simp_all add: rne_def)
  qed (simp_all add: two_pi64)
  have p6: "phase_at64 (4716158501352293 / 2 ^ 55) s 6 = 7074237752028439 / 2 ^ 53"
  proof (rule phase_at64_next [OF p5])
    show "round64 (2947599063345183 / 2 ^ 52 + 4716158501352293 / 2 ^ 55) = 7074237752028439 / 2 ^ 53"
      by (rule round64_at [where e = "- 1" and N = "7074237752028439"]) (simp_all add: rne_def)
  qed (simp_all add: two_pi64)
  have p7: "phase_at64 (4716158501352293 / 2 ^ 55) s 7 = 515829836085407 / 2 ^ 49"
  proof (rule phase_at64_next [OF p6])
    show "round64 (7074237752028439 / 2 ^ 53 + 4716158501352293 / 2 ^ 55) = 515829836085407 / 2 ^ 49"
      by (rule round64_at [where e = "- 1" and N = "8253277377366512"]) (simp_all add: rne_def)
  qed (simp_all add: two_pi64)
  have p8: "phase_at64 (4716158501352293 / 2 ^ 55) s 8 = 4716158501352293 / 2 ^ 52"
  proof (rule phase_at64_next [OF p7])
    show "round64 (515829836085407 / 2 ^ 49 + 4716158501352293 / 2 ^ 55) = 4716158501352293 / 2 ^ 52"
      by (rule round64_at [where e = "0" and N = "4716158501352293"]) (simp_all add: rne_def)
  qed (simp_all add: two_pi64)
  have p9: "phase_at64 (4716158501352293 / 2 ^ 55) s 9 = 2652839157010665 / 2 ^ 51"
  proof (rule phase_at64_next [OF p8])
    show "round64 (4716158501352293 / 2 ^ 52 + 4716158501352293 / 2 ^ 55) = 2652839157010665 / 2 ^ 51"
      by (rule round64_at [where e = "0" and N = "5305678314021330"]) (simp_all add: rne_def)
  qed (simp_all add: two_pi64)
  have p10: "phase_at64 (4716158501352293 / 2 ^ 55) s 10 = 5895198126690367 / 2 ^ 52"
  proof (rule phase_at64_next [OF p9])
    show "round64 (2652839157010665 / 2 ^ 51 + 4716158501352293 / 2 ^ 55) = 5895198126690367 / 2 ^ 52"
      by (rule round64_at [where e = "0" and N = "5895198126690367"]) (simp_all add: rne_def)
  qed (simp_all add: two_pi64)
  have p11: "phase_at64 (4716158501352293 / 2 ^ 55) s 11 = 1621179484839851 / 2 ^ 50"
  proof (rule phase_at64_next [OF p10])
    show "round64 (5895198126690367 / 2 ^ 52 + 4716158501352293 / 2 ^ 55) = 1621179484839851 / 2 ^ 50"
      by (rule round64_at [where e = "0" and N = "6484717939359404"]) (simp_all add: rne_def)
  qed (simp_all add: two_pi64)
  have p12: "phase_at64 (4716158501352293 / 2 ^ 55) s 12 = 7074237752028441 / 2 ^ 52"
  proof (rule phase_at64_next [OF p11])
    show "round64 (1621179484839851 / 2 ^ 50 + 4716158501352293 / 2 ^ 55) = 7074237752028441 / 2 ^ 52"
      by (rule round64_at [where e = "0" and N = "7074237752028441"]) (simp_all add: rne_def)
  qed (simp_all add: two_pi64)
  have p13: "phase_at64 (4716158501352293 / 2 ^ 55) s 13 = 3831878782348739 / 2 ^ 51"
  proof (rule phase_at64_next [OF p12])
    show "round64 (7074237752028441 / 2 ^ 52 + 4716158501352293 / 2 ^ 55) = 3831878782348739 / 2 ^ 51"
      by (rule round64_at [where e = "0" and N = "7663757564697478"]) (simp_all add: rne_def)
  qed (simp_all add: two_pi64)
  have p14: "phase_at64 (4716158501352293 / 2 ^ 55) s 14 = 8253277377366515 / 2 ^ 52"
  proof (rule phase_at64_next [OF p13])
    show "round64 (3831878782348739 / 2 ^ 51 + 4716158501352293 / 2 ^ 55) = 8253277377366515 / 2 ^ 52"
      by (rule round64_at [where e = "0" and N = "8253277377366515"]) (simp_all add: rne_def)
  qed (simp_all add: two_pi64)
  have p15: "phase_at64 (4716158501352293 / 2 ^ 55) s 15 = 276337412188611 / 2 ^ 47"
  proof (rule phase_at64_next [OF p14])
    show "round64 (8253277377366515 / 2 ^ 52 + 4716158501352293 / 2 ^ 55) = 276337412188611 / 2 ^ 47"
      by (rule round64_at [where e = "0" and N = "8842797190035552"]) (simp_all add: rne_def)
  qed (simp_all add: two_pi64)
  have p16: "phase_at64 (4716158501352293 / 2 ^ 55) s 16 = 2358079250676147 / 2 ^ 50"
  proof (rule phase_at64_next [OF p15])
    show "round64 (276337412188611 / 2 ^ 47 + 4716158501352293 / 2 ^ 55) = 2358079250676147 / 2 ^ 50"
      by (rule round64_at [where e = "1" and N = "4716158501352294"]) (simp_all add: rne_def)
  qed (simp_all add: two_pi64)
  have p17: "phase_at64 (4716158501352293 / 2 ^ 55) s 17 = 1252729601921703 / 2 ^ 49"
  proof (rule phase_at64_next [OF p16])
    show "round64 (2358079250676147 / 2 ^ 50 + 4716158501352293 / 2 ^ 55) = 1252729601921703 / 2 ^ 49"
      by (rule round64_at [where e = "1" and N = "5010918407686812"]) (simp_all add: rne_def)
  qed (simp_all add: two_pi64)
  have p18: "phase_at64 (4716158501352293 / 2 ^ 55) s 18 = 2652839157010665 / 2 ^ 50"
  proof (rule phase_at64_next [OF p17])
    show "round64 (1252729601921703 / 2 ^ 49 + 4716158501352293 / 2 ^ 55) = 2652839157010665 / 2 ^ 50"
      by (rule round64_at [where e = "1" and N = "5305678314021330"]) (simp_all add: rne_def)
  qed (simp_all add: two_pi64)
  have p19: "phase_at64 (4716158501352293 / 2 ^ 55) s 19 = 700054777544481 / 2 ^ 48"
  proof (rule phase_at64_next [OF p18])
    show "round64 (2652839157010665 / 2 ^ 50 + 4716158501352293 / 2 ^ 55) = 700054777544481 / 2 ^ 48"
      by (rule round64_at [where e = "1" and N = "5600438220355848"]) (simp_all add: rne_def)
  qed (simp_all add: two_pi64)
  have p20: "phase_at64 (4716158501352293 / 2 ^ 55) s 20 = 2947599063345183 / 2 ^ 50"
  proof (rule phase_at64_next [OF p19])
    show "round64 (700054777544481 / 2 ^ 48 + 4716158501352293 / 2 ^ 55) = 2947599063345183 / 2 ^ 50"
      by (rule round64_at [where e = "1" and N = "5895198126690366"]) (simp_all add: rne_def)
  qed (simp_all add: two_pi64)
  have p21: "phase_at64 (4716158501352293 / 2 ^ 55) s 21 = 1547489508256221 / 2 ^ 49"
  proof (rule phase_at64_next [OF p20])
    show "round64 (2947599063345183 / 2 ^ 50 + 4716158501352293 / 2 ^ 55) = 1547489508256221 / 2 ^ 49"
      by (rule round64_at [where e = "1" and N = "6189958033024884"]) (simp_all add: rne_def)
  qed (simp_all add: two_pi64)
  have p22: "phase_at64 (4716158501352293 / 2 ^ 55) s 22 = 3242358969679701 / 2 ^ 50"
  proof (rule phase_at64_next [OF p21])
    show "round64 (1547489508256221 / 2 ^ 49 + 4716158501352293 / 2 ^ 55) = 3242358969679701 / 2 ^ 50"
      by (rule round64_at [where e = "1" and N = "6484717939359402"]) (simp_all add: rne_def)
  qed (simp_all add: two_pi64)
  have p23: "phase_at64 (4716158501352293 / 2 ^ 55) s 23 = 211858682677935 / 2 ^ 46"
  proof (rule phase_at64_next [OF p22])
    show "round64 (3242358969679701 / 2 ^ 50 + 4716158501352293 / 2 ^ 55) = 211858682677935 / 2 ^ 46"
      by (rule round64_at [where e = "1" and N = "6779477845693920"]) (simp_all add: rne_def)
  qed (simp_all add: two_pi64)
  have p24: "phase_at64 (4716158501352293 / 2 ^ 55) s 24 = 3537118876014219 / 2 ^ 50"
  proof (rule phase_at64_next [OF p23])
    show "round64 (211858682677935 / 2 ^ 46 + 4716158501352293 / 2 ^ 55) = 3537118876014219 / 2 ^ 50"
      by (rule round64_at [where e = "1" and N = "7074237752028438"]) (simp_all add: rne_def)
  qed (simp_all add: two_pi64)
  have p25: "phase_at64 (4716158501352293 / 2 ^ 55) s 25 = 1842249414590739 / 2 ^ 49"
  proof (rule phase_at64_next [OF p24])
    show "round64 (3537118876014219 / 2 ^ 50 + 4716158501352293 / 2 ^ 55) = 1842249414590739 / 2 ^ 49"
      by (rule round64_at [where e = "1" and N = "7368997658362956"]) (simp_all add: rne_def)
  qed (simp_all add: two_pi64)
  have p26: "phase_at64 (4716158501352293 / 2 ^ 55) s 26 = 3831878782348737 / 2 ^ 50"
  proof (rule phase_at64_next [OF p25])
    show "round64 (1842249414590739 / 2 ^ 49 + 4716158501352293 / 2 ^ 55) = 3831878782348737 / 2 ^ 50"
      by (rule round64_at [where e = "1" and N = "7663757564697474"]) (simp_all add: rne_def)
  qed (simp_all add: two_pi64)
  have p27: "phase_at64 (4716158501352293 / 2 ^ 55) s 27 = 994814683878999 / 2 ^ 48"
  proof (rule phase_at64_next [OF p26])
    show "round64 (3831878782348737 / 2 ^ 50 + 4716158501352293 / 2 ^ 55) = 994814683878999 / 2 ^ 48"
      by (rule round64_at [where e = "1" and N = "7958517471031992"]) (simp_all add: rne_def)
  qed (simp_all add: two_pi64)
  have p28: "phase_at64 (4716158501352293 / 2 ^ 55) s 28 = 4126638688683255 / 2 ^ 50"
  proof (rule phase_at64_next [OF p27])
    show "round64 (994814683878999 / 2 ^ 48 + 4716158501352293 / 2 ^ 55) = 4126638688683255 / 2 ^ 50"
      by (rule round64_at [where e = "1" and N = "8253277377366510"]) (simp_all add: rne_def)
  qed (simp_all add: two_pi64)
  have p29: "phase_at64 (4716158501352293 / 2 ^ 55) s 29 = 2137009320925257 / 2 ^ 49"
  proof (rule phase_at64_next [OF p28])
    show "round64 (4126638688683255 / 2 ^ 50 + 4716158501352293 / 2 ^ 55) = 2137009320925257 / 2 ^ 49"
      by (rule round64_at [where e = "1" and N = "8548037283701028"]) (simp_all add: rne_def)
  qed (simp_all add: two_pi64)
  have p30: "phase_at64 (4716158501352293 / 2 ^ 55) s 30 = 4421398595017773 / 2 ^ 50"
  proof (rule phase_at64_next [OF p29])
    show "round64 (2137009320925257 / 2 ^ 49 + 4716158501352293 / 2 ^ 55) = 4421398595017773 / 2 ^ 50"
      by (rule round64_at [where e = "1" and N = "8842797190035546"]) (simp_all add: rne_def)
  qed (simp_all add: two_pi64)
  have p31: "phase_at64 (4716158501352293 / 2 ^ 55) s 31 = 571097318523129 / 2 ^ 47"
  proof (rule phase_at64_next [OF p30])
    show "round64 (4421398595017773 / 2 ^ 50 + 4716158501352293 / 2 ^ 55) = 571097318523129 / 2 ^ 47"
      by (rule round64_at [where e = "2" and N = "4568778548185032"]) (simp_all add: rne_def)
  qed (simp_all add: two_pi64)
  have p32: "phase_at64 (4716158501352293 / 2 ^ 55) s 32 = 4716158501352291 / 2 ^ 50"
  proof (rule phase_at64_next [OF p31])
    show "round64 (571097318523129 / 2 ^ 47 + 4716158501352293 / 2 ^ 55) = 4716158501352291 / 2 ^ 50"
      by (rule round64_at [where e = "2" and N = "4716158501352291"]) (simp_all add: rne_def)
  qed (simp_all add: two_pi64)
  have p33: "phase_at64 (4716158501352293 / 2 ^ 55) s 33 = 2431769227259775 / 2 ^ 49"
  proof (rule phase_at64_next [OF p32])
    show "round64 (4716158501352291 / 2 ^ 50 + 4716158501352293 / 2 ^ 55) = 2431769227259775 / 2 ^ 49"
      by (rule round64_at [where e = "2" and N = "4863538454519550"]) (simp_all add: rne_def)
  qed (simp_all add: two_pi64)
  have p34: "phase_at64 (4716158501352293 / 2 ^ 55) s 34 = 5010918407686809 / 2 ^ 50"
  proof (rule phase_at64_next [OF p33])
    show "round64 (2431769227259775 / 2 ^ 49 + 4716158501352293 / 2 ^ 55) = 5010918407686809 / 2 ^ 50"
      by (rule round64_at [where e = "2" and N = "5010918407686809"]) (simp_all add: rne_def)
  qed (simp_all add: two_pi64)
  have p35: "phase_at64 (4716158501352293 / 2 ^ 55) s 35 = 1289574590213517 / 2 ^ 48"
  proof (rule phase_at64_next [OF p34])
    show "round64 (5010918407686809 / 2 ^ 50 + 4716158501352293 / 2 ^ 55) = 1289574590213517 / 2 ^ 48"
      by (rule round64_at [where e = "2" and N = "5158298360854068"]) (simp_all add: rne_def)
  qed (simp_all add: two_pi64)
  have p36: "phase_at64 (4716158501352293 / 2 ^ 55) s 36 = 5305678314021327 / 2 ^ 50"
  proof (rule phase_at64_next [OF p35])
    show "round64 (1289574590213517 / 2 ^ 48 + 4716158501352293 / 2 ^ 55) = 5305678314021327 / 2 ^ 50"
      by (rule round64_at [where e = "2" and N = "5305678314021327"]) (simp_all add: rne_def)
  qed (simp_all add: two_pi64)
  have p37: "phase_at64 (4716158501352293 / 2 ^ 55) s 37 = 2726529133594293 / 2 ^ 49"
  proof (rule phase_at64_next [OF p36])
    show "round64 (5305678314021327 / 2 ^ 50 + 4716158501352293 / 2 ^ 55) = 2726529133594293 / 2 ^ 49"
      by (rule round64_at [where e = "2" and N = "5453058267188586"]) (simp_all add: rne_def)
  qed (simp_all add: two_pi64)
  have p38: "phase_at64 (4716158501352293 / 2 ^ 55) s 38 = 5600438220355845 / 2 ^ 50"
  proof (rule phase_at64_next [OF p37])
    show "round64 (2726529133594293 / 2 ^ 49 + 4716158501352293 / 2 ^ 55) = 5600438220355845 / 2 ^ 50"
      by (rule round64_at [where e = "2" and N = "5600438220355845"]) (simp_all add: rne_def)
  qed (simp_all add: two_pi64)
  have p39: "phase_at64 (4716158501352293 / 2 ^ 55) s 39 = 179619317922597 / 2 ^ 45"
  proof (rule phase_at64_next [OF p38])
    show "round64 (5600438220355845 / 2 ^ 50 + 4716158501352293 / 2 ^ 55) = 179619317922597 / 2 ^ 45"
      by (rule round64_at [where e = "2" and N = "5747818173523104"]) (simp_all add: rne_def)
  qed (simp_all add: two_pi64)
  have p40: "phase_at64 (4716158501352293 / 2 ^ 55) s 40 = 5895198126690363 / 2 ^ 50"
  proof (rule phase_at64_next [OF p39])
    show "round64 (179619317922597 / 2 ^ 45 + 4716158501352293 / 2 ^ 55) = 5895198126690363 / 2 ^ 50"
      by (rule round64_at [where e = "2" and N = "5895198126690363"]) (simp_all add: rne_def)
  qed (simp_all add: two_pi64)
  have p41: "phase_at64 (4716158501352293 / 2 ^ 55) s 41 = 3021289039928811 / 2 ^ 49"
  proof (rule phase_at64_next [OF p40])
    show "round64 (5895198126690363 / 2 ^ 50 + 4716158501352293 / 2 ^ 55) = 3021289039928811 / 2 ^ 49"
      by (rule round64_at [where e = "2" and N = "6042578079857622"]) (simp_all add: rne_def)
  qed (simp_all add: two_pi64)
  have p42: "phase_at64 (4716158501352293 / 2 ^ 55) s 42 = 6189958033024881 / 2 ^ 50"
  proof (rule phase_at64_next [OF p41])
    show "round64 (3021289039928811 / 2 ^ 49 + 4716158501352293 / 2 ^ 55) = 6189958033024881 / 2 ^ 50"
      by (rule round64_at [where e = "2" and N = "6189958033024881"]) (simp_all add: rne_def)
  qed (simp_all add: two_pi64)
  have p43: "phase_at64 (4716158501352293 / 2 ^ 55) s 43 = 1584334496548035 / 2 ^ 48"
  proof (rule phase_at64_next [OF p42])
    show "round64 (6189958033024881 / 2 ^ 50 + 4716158501352293 / 2 ^ 55) = 1584334496548035 / 2 ^ 48"
      by (rule round64_at [where e = "2" and N = "6337337986192140"]) (simp_all add: rne_def)
  qed (simp_all add: two_pi64)
  have p44: "phase_at64 (4716158501352293 / 2 ^ 55) s 44 = 6484717939359399 / 2 ^ 50"
  proof (rule phase_at64_next [OF p43])
    show "round64 (1584334496548035 / 2 ^ 48 + 4716158501352293 / 2 ^ 55) = 6484717939359399 / 2 ^ 50"
      by (rule round64_at [where e = "2" and N = "6484717939359399"]) (simp_all add: rne_def)
  qed (simp_all add: two_pi64)
  have p45: "phase_at64 (4716158501352293 / 2 ^ 55) s 45 = 3316048946263329 / 2 ^ 49"
  proof (rule phase_at64_next [OF p44])
    show "round64 (6484717939359399 / 2 ^ 50 + 4716158501352293 / 2 ^ 55) = 3316048946263329 / 2 ^ 49"
      by (rule round64_at [where e = "2" and N = "6632097892526658"]) (simp_all add: rne_def)
  qed (simp_all add: two_pi64)
  have p46: "phase_at64 (4716158501352293 / 2 ^ 55) s 46 = 6779477845693917 / 2 ^ 50"
  proof (rule phase_at64_next [OF p45])
    show "round64 (3316048946263329 / 2 ^ 49 + 4716158501352293 / 2 ^ 55) = 6779477845693917 / 2 ^ 50"
      by (rule round64_at [where e = "2" and N = "6779477845693917"]) (simp_all add: rne_def)
  qed (simp_all add: two_pi64)
  have p47: "phase_at64 (4716158501352293 / 2 ^ 55) s 47 = 865857224857647 / 2 ^ 47"
  proof (rule phase_at64_next [OF p46])
    show "round64 (6779477845693917 / 2 ^ 50 + 4716158501352293 / 2 ^ 55) = 865857224857647 / 2 ^ 47"
      by (rule round64_at [where e = "2" and N = "6926857798861176"]) (simp_all add: rne_def)
  qed (simp_all add: two_pi64)
  have p48: "phase_at64 (4716158501352293 / 2 ^ 55) s 48 = 7074237752028435 / 2 ^ 50"
  proof (rule phase_at64_next [OF p47])
    show "round64 (865857224857647 / 2 ^ 47 + 4716158501352293 / 2 ^ 55) = 7074237752028435 / 2 ^ 50"
      by (rule round64_at [where e = "2" and N = "7074237752028435"]) (simp_all add: rne_def)
  qed (simp_all add: two_pi64)
  show ?thesis by (rule p48)
qed

subsection \<open>The phase\<close>

lemma mod_2pi_unique:
  assumes "0 \<le> y" and "y < 2 * pi" and "y = x - 2 * pi * real_of_int m"
  shows "y = mod_2pi x"
proof -
  have p: "0 < 2 * pi" by simp
  have x: "x / (2 * pi) = real_of_int m + y / (2 * pi)"
    using assms(3) p by (simp add: field_simps)
  have "0 \<le> y / (2 * pi)" using assms(1) p by simp
  moreover have "y / (2 * pi) < 1" using assms(2) p by simp
  ultimately have "\<lfloor>x / (2 * pi)\<rfloor> = m"
    using x by (intro floor_unique) simp_all
  then show ?thesis using assms(3) by (simp add: mod_2pi_def)
qed

lemma mod_2pi_period: "mod_2pi (2 * pi) = 0"
  using mod_2pi_unique [of 0 "2 * pi" 1] by simp

text \<open>
  C5, as the code has it. Let \<open>delta\<close> be the phase increment the code computes,
  \<open>2.0 * M_PI * freq / samplerate\<close> in doubles, with \<open>0 \<le> delta < 2.0 * M_PI\<close>, and
  let the phase be 0 at the start. A call that generates \<open>n\<close> frames succeeds and
  leaves the phase of frame \<open>n\<close>; before every frame \<open>k\<close> the phase lies in
  \<open>[0, 2.0 * M_PI)\<close>, and it is \<open>k * delta\<close> less a whole number of \<open>2.0 * M_PI\<close> up
  to the rounding of the \<open>k\<close> steps, at most \<open>k / 2^49\<close>.
\<close>

theorem phase_wraparound:
  assumes "g_buffer s \<noteq> None" and "g_getFreq s = Some getFreq"
    and "g_getVolume s = Some getVolume" and "samplerate \<noteq> 0"
    and "d = delta_phase64 (getFreq ()) samplerate"
    and "2 * nat n \<le> length out"
    and "0 \<le> d" and "d < round64 (2 * M_PI)" and "g_phase s = 0"
  shows "(\<exists>out' s'. SidetoneGen_Generate64 dsin (Some out) n samplerate s = Inr (Some out', s') \<and>
            g_phase s' = phase_at64 d s (nat n)) \<and>
         0 \<le> phase_at64 d s k \<and> phase_at64 d s k < round64 (2 * M_PI) \<and>
         (\<exists>m::int. \<bar>phase_at64 d s k - (real k * d - real_of_int m * round64 (2 * M_PI))\<bar>
            \<le> real k / 2 ^ 49)"
proof -
  have dm: "d \<le> 7074237752028439 / 2 ^ 50"
    using assms(8) delta_phase64_below [of "getFreq ()" samplerate] by (simp only: assms(5))
  note pr = phase_at64_props [OF assms(7) dm assms(9), of k]
  obtain out' where "SidetoneGen_Generate64 dsin (Some out) n samplerate s
      = Inr (Some out', frames64 d (nat n) s)"
    using Generate64_runs [OF assms(1-6)] by blast
  then have g: "\<exists>out' s'. SidetoneGen_Generate64 dsin (Some out) n samplerate s
      = Inr (Some out', s') \<and> g_phase s' = phase_at64 d s (nat n)"
    by (simp add: phase_at64_def)
  have "phase_at64 d s k \<le> 7074237752028439 / 2 ^ 50" using pr by blast
  then have "phase_at64 d s k < round64 (2 * M_PI)" by (simp add: two_pi64)
  with g pr show ?thesis by blast
qed

theorem phase_wraparound_witness:
  "0 \<le> delta_phase64 1000 48000 \<and> delta_phase64 1000 48000 < round64 (2 * M_PI) \<and>
   g_phase (keyed_state 1000 (1 / 2)) = 0 \<and>
   (\<exists>out' s'. SidetoneGen_Generate64 sin (Some (replicate 96 0)) 48 48000
                  (keyed_state 1000 (1 / 2)) = Inr (Some out', s') \<and>
      g_phase s' = phase_at64 (delta_phase64 1000 48000) (keyed_state 1000 (1 / 2)) 48) \<and>
   0 \<le> phase_at64 (delta_phase64 1000 48000) (keyed_state 1000 (1 / 2)) 48 \<and>
   phase_at64 (delta_phase64 1000 48000) (keyed_state 1000 (1 / 2)) 48 < round64 (2 * M_PI) \<and>
   (\<exists>m::int. \<bar>phase_at64 (delta_phase64 1000 48000) (keyed_state 1000 (1 / 2)) 48
                 - (real 48 * delta_phase64 1000 48000 - real_of_int m * round64 (2 * M_PI))\<bar>
      \<le> real 48 / 2 ^ 49)"
proof -
  let ?s = "keyed_state 1000 (1 / 2)"
  have b: "g_buffer ?s \<noteq> None" and f: "g_getFreq ?s = Some (\<lambda>_. 1000)"
    and v: "g_getVolume ?s = Some (\<lambda>_. 1 / 2)" and p: "g_phase ?s = 0"
    by (simp_all add: keyed_state_simps)
  have sr: "(48000::int) \<noteq> 0" and cap: "2 * nat 48 \<le> length (replicate 96 (0::real))"
    by simp_all
  have d: "delta_phase64 1000 48000 = delta_phase64 ((\<lambda>_. 1000) ()) 48000" by simp
  have d0: "0 \<le> delta_phase64 1000 48000" and d1: "delta_phase64 1000 48000 < round64 (2 * M_PI)"
    by (simp_all add: delta_phase64_1000 two_pi64)
  from phase_wraparound [OF b f v sr d cap d0 d1 p, of sin 48]
  show ?thesis using d0 d1 p by simp
qed

text \<open>
  Two inputs where the claim as stated fails. A frequency callback that returns
  \<open>-600\<close> at 48000 Hz: \<open>delta\<close> is negative, so below \<open>2\<pi>\<close>, and after one frame
  the phase is \<open>delta\<close>, below 0. And 1000 Hz at 48000 Hz, \<open>0 \<le> delta < 2\<pi>\<close>: after
  48 frames \<open>(48 * delta) mod 2\<pi>\<close> is 0, the phase of the program is
  \<open>2.0 * M_PI - 5 / 2^50\<close> (6.283185307179582), which is not \<open>48 * delta\<close> on the
  computed \<open>delta\<close> either.
\<close>

theorem phase_wraparound_counterexample:
  "delta_phase64 (- 600) 48000 < round64 (2 * M_PI) \<and>
   g_phase (keyed_state (- 600) (1 / 2)) = 0 \<and>
   map_sum id (g_phase \<circ> snd)
     (SidetoneGen_Generate64 sin (Some [7, 7]) 1 48000 (keyed_state (- 600) (1 / 2)))
     = Inr (- (176855943800711 / 2 ^ 51)) \<and>
   - (176855943800711 / 2 ^ 51) < (0::real) \<and>
   delta_phase64 1000 48000 = 4716158501352293 / 2 ^ 55 \<and>
   0 \<le> delta_phase64 1000 48000 \<and> delta_phase64 1000 48000 < round64 (2 * M_PI) \<and>
   g_phase (keyed_state 1000 (1 / 2)) = 0 \<and>
   map_sum id (g_phase \<circ> snd)
     (SidetoneGen_Generate64 sin (Some (replicate 96 0)) 48 48000 (keyed_state 1000 (1 / 2)))
     = Inr (7074237752028435 / 2 ^ 50) \<and>
   round64 (2 * M_PI) = 7074237752028440 / 2 ^ 50 \<and>
   mod_2pi (real 48 * (2 * pi * real_of_int 1000 / real_of_int 48000)) = 0 \<and>
   (7074237752028435 / 2 ^ 50 :: real)
     \<noteq> mod_2pi (real 48 * (2 * pi * real_of_int 1000 / real_of_int 48000)) \<and>
   real 48 * delta_phase64 1000 48000 < round64 (2 * M_PI) \<and>
   (7074237752028435 / 2 ^ 50 :: real) \<noteq> real 48 * delta_phase64 1000 48000"
proof -
  let ?a = "keyed_state (- 600) (1 / 2)"
  let ?b = "keyed_state 1000 (1 / 2)"
  have na: "delta_phase64 (- 600) 48000 < round64 (2 * M_PI)"
    by (simp add: delta_phase64_neg600 two_pi64)
  have pa: "g_phase ?a = 0" and pb: "g_phase ?b = 0" by (simp_all add: keyed_state_simps)
  have "phase_at64 (- (176855943800711 / 2 ^ 51)) ?a 0 = 0" using pa by simp
  then have "phase_at64 (- (176855943800711 / 2 ^ 51)) ?a 1 = - (176855943800711 / 2 ^ 51)"
  proof (rule phase_at64_next)
    show "round64 (0 + - (176855943800711 / 2 ^ 51)) = - (176855943800711 / 2 ^ 51)"
      by (rule round64_at [where e = "- 4" and N = "- 5659390201622752"])
        (simp_all add: rne_def)
  qed (simp_all add: two_pi64)
  then have fa: "g_phase (frames64 (delta_phase64 (- 600) 48000) 1 ?a)
      = - (176855943800711 / 2 ^ 51)"
    by (simp only: phase_at64_def delta_phase64_neg600)
  obtain outa where "SidetoneGen_Generate64 sin (Some [7, 7]) 1 48000 ?a
      = Inr (Some outa, frames64 (delta_phase64 (- 600) 48000) (nat 1) ?a)"
    using Generate64_runs [of ?a "\<lambda>_. - 600" "\<lambda>_. 1 / 2" 48000
        "delta_phase64 (- 600) 48000" 1 "[7, 7]" sin]
    by (auto simp add: keyed_state_simps)
  then have ga: "map_sum id (g_phase \<circ> snd)
      (SidetoneGen_Generate64 sin (Some [7, 7]) 1 48000 ?a) = Inr (- (176855943800711 / 2 ^ 51))"
    using fa by simp
  have fb: "g_phase (frames64 (delta_phase64 1000 48000) 48 ?b) = 7074237752028435 / 2 ^ 50"
    using phase_at64_1000 [OF pb] by (simp only: phase_at64_def delta_phase64_1000)
  obtain outb where "SidetoneGen_Generate64 sin (Some (replicate 96 0)) 48 48000 ?b
      = Inr (Some outb, frames64 (delta_phase64 1000 48000) (nat 48) ?b)"
    using Generate64_runs [of ?b "\<lambda>_. 1000" "\<lambda>_. 1 / 2" 48000
        "delta_phase64 1000 48000" 48 "replicate 96 0" sin]
    by (auto simp add: keyed_state_simps)
  then have gb: "map_sum id (g_phase \<circ> snd)
      (SidetoneGen_Generate64 sin (Some (replicate 96 0)) 48 48000 ?b)
      = Inr (7074237752028435 / 2 ^ 50)"
    using fb by simp
  have m: "mod_2pi (real 48 * (2 * pi * real_of_int 1000 / real_of_int 48000)) = 0"
    using mod_2pi_period by simp
  have r: "0 \<le> delta_phase64 1000 48000" "delta_phase64 1000 48000 < round64 (2 * M_PI)"
    "real 48 * delta_phase64 1000 48000 < round64 (2 * M_PI)"
    "(7074237752028435 / 2 ^ 50 :: real) \<noteq> real 48 * delta_phase64 1000 48000"
    by (simp_all add: delta_phase64_1000 two_pi64)
  have neg: "- (176855943800711 / 2 ^ 51) < (0::real)" by simp
  have m': "(7074237752028435 / 2 ^ 50 :: real)
      \<noteq> mod_2pi (real 48 * (2 * pi * real_of_int 1000 / real_of_int 48000))"
    by (simp only: m) simp
  from na pa ga neg delta_phase64_1000 r pb gb two_pi64 m m' show ?thesis by blast
qed

end
